theory Spec2Isabelle
  imports Main
begin

section \<open>The scan and delete pipeline of iphone_photo_cleaner.py\<close>

text \<open>
  The model covers \<^verbatim>\<open>scan_thread\<close> (inside \<^verbatim>\<open>_scan_photos\<close>),
  \<^verbatim>\<open>_delete_selected\<close> with its \<^verbatim>\<open>delete_thread\<close>, and the parts of
  \<^verbatim>\<open>RetroImageGrid\<close> they use. The device (\<^verbatim>\<open>self.afc\<close>) is an external
  library object: its four operations are parameters that take and return a device
  state, so a call may fail at one time and succeed at another. Every device call,
  every \<^verbatim>\<open>progress.update_progress\<close> and every \<^verbatim>\<open>logger.warning\<close> /
  \<^verbatim>\<open>logger.error\<close> is recorded, in order, in a trace. Log lines of level info
  and debug, message boxes and label texts are presentation and are left out.
\<close>

subsection \<open>Strings\<close>

text \<open>\<^verbatim>\<open>str.lower()\<close>: only the letters A to Z matter for the extensions compared.\<close>

definition lower_char :: "char \<Rightarrow> char" where
  "lower_char c =
     (if 65 \<le> (of_char c :: nat) \<and> (of_char c :: nat) \<le> 90
      then char_of ((of_char c :: nat) + 32) else c)"

definition upper_char :: "char \<Rightarrow> char" where
  "upper_char c =
     (if 97 \<le> (of_char c :: nat) \<and> (of_char c :: nat) \<le> 122
      then char_of ((of_char c :: nat) - 32) else c)"

definition lower :: "string \<Rightarrow> string" where
  "lower s = map lower_char s"

definition upper :: "string \<Rightarrow> string" where
  "upper s = map upper_char s"

text \<open>\<^verbatim>\<open>s.endswith(suffix)\<close> and \<^verbatim>\<open>s.endswith((a, b, ...))\<close>.\<close>

definition endswith :: "string \<Rightarrow> string \<Rightarrow> bool" where
  "endswith s suf = (take (length suf) (rev s) = rev suf)"

definition endswith_any :: "string \<Rightarrow> string list \<Rightarrow> bool" where
  "endswith_any s sufs = list_ex (endswith s) sufs"

text \<open>\<^verbatim>\<open>os.path.basename\<close>: what follows the last slash.\<close>

definition basename :: "string \<Rightarrow> string" where
  "basename p = rev (takeWhile (\<lambda>c. c \<noteq> CHR ''/'') (rev p))"

text \<open>\<^verbatim>\<open>str(n)\<close> for a count, as the f-strings format it.\<close>

fun str_nat :: "nat \<Rightarrow> string" where
  "str_nat n =
     (if n < 10 then [char_of (48 + n)]
      else str_nat (n div 10) @ [char_of (48 + n mod 10)])"

declare str_nat.simps [simp del]

subsection \<open>Media kinds by extension\<close>

text \<open>Line 931: the filter of the folder listing.\<close>

definition is_media :: "string \<Rightarrow> bool" where
  "is_media f =
     endswith_any (lower f)
       [''.jpg'', ''.jpeg'', ''.png'', ''.heic'', ''.heif'', ''.mov'', ''.mp4'', ''.m4v'']"

text \<open>Lines 312, 313 and 987.\<close>

definition is_video :: "string \<Rightarrow> bool" where
  "is_video filename = endswith_any (lower filename) [''.mov'', ''.mp4'', ''.m4v'']"

definition is_heic :: "string \<Rightarrow> bool" where
  "is_heic filename = endswith_any (lower filename) [''.heic'', ''.heif'']"

text \<open>
  The classifier as the specification words it (section 4.1), to be compared with the
  three predicates of the source.
\<close>

datatype kind = Image | HeicImage | Video | Unsupported

definition classify_spec :: "string \<Rightarrow> kind" where
  "classify_spec filename =
     (if endswith_any (lower filename) [''.jpg'', ''.jpeg'', ''.png''] then Image
      else if endswith_any (lower filename) [''.heic'', ''.heif''] then HeicImage
      else if endswith_any (lower filename) [''.mov'', ''.mp4'', ''.m4v''] then Video
      else Unsupported)"

subsection \<open>Data\<close>

text \<open>The text of a raised exception, \<^verbatim>\<open>str(e)\<close>.\<close>

type_synonym exn = string

text \<open>
  A \<^verbatim>\<open>datetime\<close>: the calendar day as a day number (what \<^verbatim>\<open>.date()\<close> returns
  and \<^verbatim>\<open><\<close> compares) and the time of day in seconds.
\<close>

record datetime =
  dt_date :: int
  dt_time :: nat

text \<open>
  The dictionary \<^verbatim>\<open>afc.stat\<close> returns: \<^verbatim>\<open>stat['st_mtime']\<close> raises KeyError when the
  key is missing, \<^verbatim>\<open>stat.get('st_size', 0)\<close> defaults.
\<close>

record stat_dict =
  st_mtime :: "int option"
  st_size :: "nat option"

text \<open>The dictionaries of \<^verbatim>\<open>old_photos\<close> (lines 957 to 962).\<close>

record photo =
  path :: string
  filename :: string
  date :: datetime
  size_bytes :: nat

text \<open>The dictionaries of \<^verbatim>\<open>RetroImageGrid.thumbnails\<close> (lines 393 to 398).\<close>

record thumb =
  thumb_path :: string
  thumb_filename :: string
  selected :: bool

text \<open>The device operations used, each from a device state to an answer and a new state.\<close>

record 'd afc_service =
  listdir :: "'d \<Rightarrow> string \<Rightarrow> (exn + string list) \<times> 'd"
  stat :: "'d \<Rightarrow> string \<Rightarrow> (exn + stat_dict) \<times> 'd"
  rm :: "'d \<Rightarrow> string \<Rightarrow> (exn + unit) \<times> 'd"
  get_file_contents :: "'d \<Rightarrow> string \<Rightarrow> (exn + string) \<times> 'd"

datatype event =
    Listdir string "exn + string list"
  | Stat string "exn + stat_dict"
  | Rm string "exn + unit"
  | GetFileContents string "exn + string"
  | UpdateProgress nat nat string
  | LogWarning string
  | LogError string

record 'd world =
  dev :: 'd
  trace :: "event list"

text \<open>The state of the application that scan and delete read and write.\<close>

record app =
  photos_data :: "photo list"
  thumbnails :: "thumb list"

subsection \<open>Effects\<close>

definition emit :: "event \<Rightarrow> 'd world \<Rightarrow> 'd world" where
  "emit e w = w\<lparr>trace := trace w @ [e]\<rparr>"

definition call_listdir ::
  "'d afc_service \<Rightarrow> string \<Rightarrow> 'd world \<Rightarrow> (exn + string list) \<times> 'd world" where
  "call_listdir afc p w =
     (case listdir afc (dev w) p of
        (r, d') \<Rightarrow> (r, \<lparr>dev = d', trace = trace w @ [Listdir p r]\<rparr>))"

definition call_stat ::
  "'d afc_service \<Rightarrow> string \<Rightarrow> 'd world \<Rightarrow> (exn + stat_dict) \<times> 'd world" where
  "call_stat afc p w =
     (case stat afc (dev w) p of
        (r, d') \<Rightarrow> (r, \<lparr>dev = d', trace = trace w @ [Stat p r]\<rparr>))"

definition call_rm ::
  "'d afc_service \<Rightarrow> string \<Rightarrow> 'd world \<Rightarrow> (exn + unit) \<times> 'd world" where
  "call_rm afc p w =
     (case rm afc (dev w) p of
        (r, d') \<Rightarrow> (r, \<lparr>dev = d', trace = trace w @ [Rm p r]\<rparr>))"

definition call_get_file_contents ::
  "'d afc_service \<Rightarrow> string \<Rightarrow> 'd world \<Rightarrow> (exn + string) \<times> 'd world" where
  "call_get_file_contents afc p w =
     (case get_file_contents afc (dev w) p of
        (r, d') \<Rightarrow> (r, \<lparr>dev = d', trace = trace w @ [GetFileContents p r]\<rparr>))"

text \<open>\<^verbatim>\<open>for i, x in enumerate(xs): body\<close>, the index starting at \<open>i\<close>.\<close>

fun for_enumerate :: "(nat \<Rightarrow> 'a \<Rightarrow> 's \<Rightarrow> 's) \<Rightarrow> nat \<Rightarrow> 'a list \<Rightarrow> 's \<Rightarrow> 's" where
  "for_enumerate body i [] s = s"
| "for_enumerate body i (x # xs) s = for_enumerate body (Suc i) xs (body i x s)"

subsection \<open>RetroImageGrid\<close>

text \<open>
  \<^verbatim>\<open>add_thumbnail\<close>: the image data and the date string are only drawn; the entry
  appended holds the path, the file name and a checkbox that starts ticked.
\<close>

definition add_thumbnail :: "string \<Rightarrow> string \<Rightarrow> string \<Rightarrow> thumb list \<Rightarrow> thumb list" where
  "add_thumbnail image_data fname file_path ts =
     ts @ [\<lparr>thumb_path = file_path, thumb_filename = fname, selected = True\<rparr>]"

definition get_selected :: "thumb list \<Rightarrow> thumb list" where
  "get_selected ts = filter selected ts"

definition select_all :: "thumb list \<Rightarrow> thumb list" where
  "select_all ts = map (\<lambda>t. t\<lparr>selected := True\<rparr>) ts"

definition deselect_all :: "thumb list \<Rightarrow> thumb list" where
  "deselect_all ts = map (\<lambda>t. t\<lparr>selected := False\<rparr>) ts"

subsection \<open>scan_thread\<close>

text \<open>Lines 926 to 942: one folder of \<^verbatim>\<open>dcim_folders\<close>.\<close>

definition folder_path_of :: "string \<Rightarrow> string" where
  "folder_path_of folder = ''/DCIM/'' @ folder"

definition scan_folder ::
  "'d afc_service \<Rightarrow> nat \<Rightarrow> nat \<Rightarrow> string \<Rightarrow>
   'd world \<times> string list \<times> string list \<Rightarrow> 'd world \<times> string list \<times> string list" where
  "scan_folder afc n i folder s =
     (case s of (w, all_photos, scan_errors) \<Rightarrow>
        (case call_listdir afc (folder_path_of folder) w of
           (Inl folder_err, w1) \<Rightarrow>
             (emit (LogWarning (''Error scanning folder '' @ folder @ '': '' @ folder_err)) w1,
              all_photos,
              scan_errors @ [''Folder '' @ folder @ '': '' @ folder_err])
         | (Inr files, w1) \<Rightarrow>
             (emit (UpdateProgress (i + 1) n (''Scanning '' @ folder @ ''...'')) w1,
              all_photos @ map (\<lambda>f. folder_path_of folder @ ''/'' @ f) (filter is_media files),
              scan_errors)))"

text \<open>
  Lines 953 and 954: the modification time of a stat answer. The conversion
  \<^verbatim>\<open>datetime.fromtimestamp\<close> is library code and a parameter; it may raise.
\<close>

definition read_mtime :: "(int \<Rightarrow> exn + datetime) \<Rightarrow> stat_dict \<Rightarrow> exn + datetime" where
  "read_mtime fromtimestamp st =
     (case st_mtime st of
        None \<Rightarrow> Inl ''KeyError: st_mtime''
      | Some t \<Rightarrow> fromtimestamp t)"

text \<open>Lines 951 to 973: one path of \<^verbatim>\<open>all_photos\<close>.\<close>

definition check_date ::
  "'d afc_service \<Rightarrow> (int \<Rightarrow> exn + datetime) \<Rightarrow> int \<Rightarrow> nat \<Rightarrow> nat \<Rightarrow> string \<Rightarrow>
   'd world \<times> photo list \<times> nat \<Rightarrow> 'd world \<times> photo list \<times> nat" where
  "check_date afc fromtimestamp cutoff_date n i photo_path s =
     (case s of (w, old_photos, date_check_errors) \<Rightarrow>
        (case call_stat afc photo_path w of
           (Inl stat_err, w1) \<Rightarrow> (w1, old_photos, date_check_errors + 1)
         | (Inr st, w1) \<Rightarrow>
             (case read_mtime fromtimestamp st of
                Inl stat_err \<Rightarrow> (w1, old_photos, date_check_errors + 1)
              | Inr mtime \<Rightarrow>
                  (let old_photos' =
                         (if dt_date mtime < cutoff_date
                          then old_photos @
                                 [\<lparr>path = photo_path, filename = basename photo_path,
                                   date = mtime,
                                   size_bytes = (case st_size st of None \<Rightarrow> 0 | Some z \<Rightarrow> z)\<rparr>]
                          else old_photos);
                       w2 = (if i mod 10 = 0
                             then emit (UpdateProgress (i + 1) n
                                    (''Checking dates... Found '' @ str_nat (length old_photos')
                                       @ '' old photos'')) w1
                             else w1)
                   in (w2, old_photos', date_check_errors)))))"

text \<open>Lines 984 to 1018: one entry of \<^verbatim>\<open>old_photos[:max_thumbnails]\<close>.\<close>

definition load_thumbnail ::
  "'d afc_service \<Rightarrow> nat \<Rightarrow> nat \<Rightarrow> photo \<Rightarrow> 'd world \<times> thumb list \<Rightarrow> 'd world \<times> thumb list" where
  "load_thumbnail afc n i p s =
     (case s of (w, ts) \<Rightarrow>
        (let (w1, ts1) =
               (if is_video (filename p)
                then (w, add_thumbnail [] (filename p) (path p) ts)
                else (case call_get_file_contents afc (path p) w of
                        (Inr data, w') \<Rightarrow> (w', add_thumbnail data (filename p) (path p) ts)
                      | (Inl thumb_err, w') \<Rightarrow> (w', add_thumbnail [] (filename p) (path p) ts)))
         in (emit (UpdateProgress (i + 1) n ''Loading thumbnails...'') w1, ts1)))"

definition max_thumbnails :: nat where
  "max_thumbnails = 100"

text \<open>The three loops of \<^verbatim>\<open>scan_thread\<close>, each from a world.\<close>

definition scan_folders ::
  "'d afc_service \<Rightarrow> string list \<Rightarrow> 'd world \<Rightarrow> 'd world \<times> string list \<times> string list" where
  "scan_folders afc dcim_folders w =
     for_enumerate (scan_folder afc (length dcim_folders)) 0 dcim_folders (w, [], [])"

definition check_dates ::
  "'d afc_service \<Rightarrow> (int \<Rightarrow> exn + datetime) \<Rightarrow> int \<Rightarrow> string list \<Rightarrow> 'd world \<Rightarrow>
   'd world \<times> photo list \<times> nat" where
  "check_dates afc fromtimestamp cutoff_date all_photos w =
     for_enumerate (check_date afc fromtimestamp cutoff_date (length all_photos)) 0
       all_photos (w, [], 0)"

definition load_thumbnails ::
  "'d afc_service \<Rightarrow> photo list \<Rightarrow> 'd world \<times> thumb list \<Rightarrow> 'd world \<times> thumb list" where
  "load_thumbnails afc old_photos s =
     for_enumerate (load_thumbnail afc (min (length old_photos) max_thumbnails)) 0
       (take max_thumbnails old_photos) s"

text \<open>
  \<^verbatim>\<open>scan_thread\<close>, lines 914 to 1076. A failure of the listing of \<^verbatim>\<open>/DCIM\<close> reaches
  the outer handler: the error is logged and the application state stays as
  \<^verbatim>\<open>_scan_photos\<close> left it. The locals \<^verbatim>\<open>scan_errors\<close> and \<^verbatim>\<open>date_check_errors\<close>
  are not stored anywhere; the second is logged when positive.
\<close>

definition scan_thread ::
  "'d afc_service \<Rightarrow> (int \<Rightarrow> exn + datetime) \<Rightarrow> int \<Rightarrow> 'd world \<Rightarrow> app \<Rightarrow> 'd world \<times> app" where
  "scan_thread afc fromtimestamp cutoff_date w a =
     (case call_listdir afc ''/DCIM'' w of
        (Inl e, w1) \<Rightarrow> (emit (LogError (''Scan failed: '' @ e)) w1, a)
      | (Inr entries, w1) \<Rightarrow>
          (let dcim_folders = filter (\<lambda>f. f \<notin> set [''.'', ''..'']) entries;
               (w2, all_photos, scan_errors) = scan_folders afc dcim_folders w1;
               (w3, old_photos, date_check_errors) =
                  check_dates afc fromtimestamp cutoff_date all_photos w2;
               w4 = (if date_check_errors > 0
                     then emit (LogWarning (''Could not check dates for ''
                             @ str_nat date_check_errors @ '' files'')) w3
                     else w3);
               (w5, ts) = load_thumbnails afc old_photos (w4, thumbnails a)
           in (w5, \<lparr>photos_data = old_photos, thumbnails = ts\<rparr>)))"

text \<open>
  \<^verbatim>\<open>_scan_photos\<close>, lines 894 to 1078: the guards, the reset of the grid and of
  \<^verbatim>\<open>photos_data\<close>, then the thread. The trace starts empty.
\<close>

definition scan_photos ::
  "'d afc_service option \<Rightarrow> (int \<Rightarrow> exn + datetime) \<Rightarrow> int option \<Rightarrow> 'd \<Rightarrow> app \<Rightarrow>
   'd world \<times> app" where
  "scan_photos afc fromtimestamp cutoff_date d a =
     (case cutoff_date of
        None \<Rightarrow> (\<lparr>dev = d, trace = []\<rparr>, a)
      | Some c \<Rightarrow>
          (case afc of
             None \<Rightarrow> (\<lparr>dev = d, trace = []\<rparr>, a)
           | Some service \<Rightarrow>
               scan_thread service fromtimestamp c \<lparr>dev = d, trace = []\<rparr>
                 \<lparr>photos_data = [], thumbnails = []\<rparr>))"

subsection \<open>delete_thread\<close>

text \<open>Lines 1153 to 1168: one entry of \<^verbatim>\<open>self.photos_data\<close>.\<close>

definition delete_photo ::
  "'d afc_service \<Rightarrow> bool \<Rightarrow> nat \<Rightarrow> nat \<Rightarrow> photo \<Rightarrow>
   'd world \<times> nat \<times> nat \<times> string list \<Rightarrow> 'd world \<times> nat \<times> nat \<times> string list" where
  "delete_photo afc dry_run n i p s =
     (case s of (w, deleted, errors, error_files) \<Rightarrow>
        (let (w1, deleted1, errors1, error_files1) =
               (if \<not> dry_run
                then (case call_rm afc (path p) w of
                        (Inr u, w') \<Rightarrow> (w', deleted + 1, errors, error_files)
                      | (Inl e, w') \<Rightarrow>
                          (emit (LogError (''Failed to delete '' @ path p @ '': '' @ e)) w',
                           deleted, errors + 1, error_files @ [filename p]))
                else (w, deleted + 1, errors, error_files))
         in (emit (UpdateProgress (i + 1) n
                    ((if dry_run then ''Simulating'' else ''Deleting'') @ '': '' @ filename p)) w1,
             deleted1, errors1, error_files1)))"

text \<open>What \<^verbatim>\<open>delete_thread\<close> reports: its three tallies and the mode prefix.\<close>

record report =
  deleted :: nat
  errors :: nat
  error_files :: "string list"
  mode :: string

definition delete_thread ::
  "'d afc_service \<Rightarrow> bool \<Rightarrow> 'd world \<Rightarrow> app \<Rightarrow> 'd world \<times> report \<times> app" where
  "delete_thread afc dry_run w a =
     (case for_enumerate (delete_photo afc dry_run (length (photos_data a))) 0
             (photos_data a) (w, 0, 0, []) of
        (w1, n_deleted, n_errors, files) \<Rightarrow>
          (w1,
           \<lparr>deleted = n_deleted, errors = n_errors, error_files = files,
             mode = (if dry_run then ''[DRY RUN] '' else '''')\<rparr>,
           (if \<not> dry_run \<and> n_deleted > 0
            then \<lparr>photos_data = [], thumbnails = []\<rparr> else a)))"

text \<open>
  \<^verbatim>\<open>_delete_selected\<close>, lines 1088 to 1207. The two confirmation dialogs are the
  inputs \<open>confirm\<close> and \<open>final_confirm\<close>. The trace starts empty.
\<close>

datatype 'd delete_outcome =
    NoSelection
  | NotConnected
  | Cancelled
  | Ran "'d world" report app

definition delete_selected ::
  "'d afc_service option \<Rightarrow> bool \<Rightarrow> bool \<Rightarrow> bool \<Rightarrow> 'd \<Rightarrow> app \<Rightarrow> 'd delete_outcome" where
  "delete_selected afc dry_run confirm final_confirm d a =
     (let sel = get_selected (thumbnails a) in
      if sel = [] \<and> photos_data a = [] then NoSelection
      else (case afc of
              None \<Rightarrow> NotConnected
            | Some service \<Rightarrow>
                if \<not> confirm then Cancelled
                else if \<not> dry_run \<and> \<not> final_confirm then Cancelled
                else (case delete_thread service dry_run \<lparr>dev = d, trace = []\<rparr> a of
                        (w, r, a') \<Rightarrow> Ran w r a')))"

subsection \<open>Reading a trace\<close>

fun rm_calls :: "event list \<Rightarrow> (string \<times> (exn + unit)) list" where
  "rm_calls [] = []"
| "rm_calls (Rm p r # es) = (p, r) # rm_calls es"
| "rm_calls (e # es) = rm_calls es"

fun listdir_calls :: "event list \<Rightarrow> (string \<times> (exn + string list)) list" where
  "listdir_calls [] = []"
| "listdir_calls (Listdir p r # es) = (p, r) # listdir_calls es"
| "listdir_calls (e # es) = listdir_calls es"

fun stat_calls :: "event list \<Rightarrow> (string \<times> (exn + stat_dict)) list" where
  "stat_calls [] = []"
| "stat_calls (Stat p r # es) = (p, r) # stat_calls es"
| "stat_calls (e # es) = stat_calls es"

fun progress_updates :: "event list \<Rightarrow> (nat \<times> nat \<times> string) list" where
  "progress_updates [] = []"
| "progress_updates (UpdateProgress c t m # es) = (c, t, m) # progress_updates es"
| "progress_updates (e # es) = progress_updates es"

fun warnings :: "event list \<Rightarrow> string list" where
  "warnings [] = []"
| "warnings (LogWarning m # es) = m # warnings es"
| "warnings (e # es) = warnings es"

fun error_logs :: "event list \<Rightarrow> string list" where
  "error_logs [] = []"
| "error_logs (LogError m # es) = m # error_logs es"
| "error_logs (e # es) = error_logs es"

subsection \<open>Reading the device's answers\<close>

text \<open>
  What an answer of the device means to the loops of \<^verbatim>\<open>scan_thread\<close>; the
  theorems below are stated with these. A stat answer fails the date check when the
  call raised, the key \<^verbatim>\<open>st_mtime\<close> is missing or the conversion raised; it is old
  when it gives a date before the cutoff.
\<close>

definition stat_failed :: "(int \<Rightarrow> exn + datetime) \<Rightarrow> exn + stat_dict \<Rightarrow> bool" where
  "stat_failed fromtimestamp r =
     (case r of Inl e \<Rightarrow> True | Inr st \<Rightarrow> isl (read_mtime fromtimestamp st))"

definition is_old :: "(int \<Rightarrow> exn + datetime) \<Rightarrow> int \<Rightarrow> exn + stat_dict \<Rightarrow> bool" where
  "is_old fromtimestamp cutoff_date r =
     (case r of
        Inl e \<Rightarrow> False
      | Inr st \<Rightarrow>
          (case read_mtime fromtimestamp st of
             Inl e \<Rightarrow> False
           | Inr mtime \<Rightarrow> dt_date mtime < cutoff_date))"

text \<open>The entry of \<^verbatim>\<open>old_photos\<close> that a path and its stat answer give, if any.\<close>

definition old_item ::
  "(int \<Rightarrow> exn + datetime) \<Rightarrow> int \<Rightarrow> string \<times> (exn + stat_dict) \<Rightarrow> photo list" where
  "old_item fromtimestamp cutoff_date = (\<lambda>(p, r).
     (case r of
        Inl e \<Rightarrow> []
      | Inr st \<Rightarrow>
          (case read_mtime fromtimestamp st of
             Inl e \<Rightarrow> []
           | Inr mtime \<Rightarrow>
               if dt_date mtime < cutoff_date
               then [\<lparr>path = p, filename = basename p, date = mtime,
                      size_bytes = (case st_size st of None \<Rightarrow> 0 | Some z \<Rightarrow> z)\<rparr>]
               else [])))"

text \<open>The paths that the listing of one folder adds to \<^verbatim>\<open>all_photos\<close>.\<close>

definition folder_media :: "string \<times> (exn + string list) \<Rightarrow> string list" where
  "folder_media = (\<lambda>(p, r). case r of Inl e \<Rightarrow> []
                    | Inr files \<Rightarrow> map (\<lambda>f. p @ ''/'' @ f) (filter is_media files))"

definition found_text :: "nat \<Rightarrow> string" where
  "found_text k = ''Checking dates... Found '' @ str_nat k @ '' old photos''"

definition thumb_of :: "photo \<Rightarrow> thumb" where
  "thumb_of p = \<lparr>thumb_path = path p, thumb_filename = filename p, selected = True\<rparr>"

subsection \<open>Devices and inputs for the examples\<close>

text \<open>
  The conversion of a timestamp in seconds, at UTC; a negative timestamp is refused.
  Day 19723 is 2024-01-01, day 20089 is 2025-01-01, day 20240 is 2025-06-01.
\<close>

definition example_fromtimestamp :: "int \<Rightarrow> exn + datetime" where
  "example_fromtimestamp t =
     (if t < 0 then Inl ''year is out of range''
      else Inr \<lparr>dt_date = t div 86400, dt_time = nat (t mod 86400)\<rparr>)"

definition example_listdir :: "bool \<Rightarrow> string \<Rightarrow> exn + string list" where
  "example_listdir flaky p =
     (if p = ''/DCIM'' then Inr [''.'', ''..'', ''100APPLE'', ''101APPLE'', ''102APPLE'']
      else if p = ''/DCIM/100APPLE''
        then Inr [''IMG_01.JPG'', ''IMG_02.MOV'', ''note.txt'', ''IMG_03.PNG'']
      else if p = ''/DCIM/101APPLE''
        then (if flaky then Inl ''connection lost'' else Inr [])
      else if p = ''/DCIM/102APPLE'' then Inr [''IMG_04.HEIC'']
      else Inl ''no such directory'')"

definition example_stat :: "bool \<Rightarrow> string \<Rightarrow> exn + stat_dict" where
  "example_stat flaky p =
     (if p = ''/DCIM/100APPLE/IMG_01.JPG''
        then Inr \<lparr>st_mtime = Some 1704067200, st_size = Some 2048\<rparr>
      else if p = ''/DCIM/100APPLE/IMG_02.MOV''
        then Inr \<lparr>st_mtime = Some 1748736000, st_size = Some 4096\<rparr>
      else if p = ''/DCIM/100APPLE/IMG_03.PNG''
        then (if flaky then Inl ''connection lost''
              else Inr \<lparr>st_mtime = Some 1748736000, st_size = Some 512\<rparr>)
      else if p = ''/DCIM/102APPLE/IMG_04.HEIC''
        then Inr \<lparr>st_mtime = Some 1704153600, st_size = None\<rparr>
      else Inl ''no such file'')"

text \<open>
  A device whose state is the list of paths removed so far. With \<open>flaky\<close> the
  listing of 101APPLE and the stat of IMG_03.PNG fail; without, 101APPLE is empty and
  IMG_03.PNG is recent.
\<close>

definition example_afc :: "bool \<Rightarrow> string list afc_service" where
  "example_afc flaky =
     \<lparr>listdir = (\<lambda>d p. (example_listdir flaky p, d)),
      stat = (\<lambda>d p. (example_stat flaky p, d)),
      rm = (\<lambda>d p. if p \<in> set d then (Inl ''no such file'', d) else (Inr (), p # d)),
      get_file_contents = (\<lambda>d p. (Inr ''image bytes'', d))\<rparr>"

text \<open>A device on which removing the path \<open>bad\<close> fails with \<open>cause\<close>.\<close>

definition rm_failing :: "string \<Rightarrow> exn \<Rightarrow> string list afc_service" where
  "rm_failing bad cause =
     \<lparr>listdir = (\<lambda>d p. (Inl ''not used'', d)),
      stat = (\<lambda>d p. (Inl ''not used'', d)),
      rm = (\<lambda>d p. if p = bad \<or> p \<in> set d then (Inl cause, d) else (Inr (), p # d)),
      get_file_contents = (\<lambda>d p. (Inl ''not used'', d))\<rparr>"

definition example_photo :: "string \<Rightarrow> int \<Rightarrow> photo" where
  "example_photo name day =
     \<lparr>path = ''/DCIM/100APPLE/'' @ name, filename = name,
       date = \<lparr>dt_date = day, dt_time = 0\<rparr>, size_bytes = 2048\<rparr>"

definition five_photos :: "photo list" where
  "five_photos =
     [example_photo ''IMG_1.JPG'' 19723, example_photo ''IMG_2.JPG'' 19724,
      example_photo ''IMG_3.JPG'' 19725, example_photo ''IMG_4.JPG'' 19726,
      example_photo ''IMG_5.JPG'' 19727]"

definition two_photos :: "photo list" where
  "two_photos = [example_photo ''IMG_1.JPG'' 19723, example_photo ''IMG_2.JPG'' 19724]"

section \<open>Lemmas about loops and traces\<close>

lemma rm_calls_append: "rm_calls (es @ fs) = rm_calls es @ rm_calls fs"
  by (induction es rule: rm_calls.induct) simp_all

lemma listdir_calls_append: "listdir_calls (es @ fs) = listdir_calls es @ listdir_calls fs"
  by (induction es rule: listdir_calls.induct) simp_all

lemma stat_calls_append: "stat_calls (es @ fs) = stat_calls es @ stat_calls fs"
  by (induction es rule: stat_calls.induct) simp_all

lemma progress_updates_append:
  "progress_updates (es @ fs) = progress_updates es @ progress_updates fs"
  by (induction es rule: progress_updates.induct) simp_all

lemma warnings_append: "warnings (es @ fs) = warnings es @ warnings fs"
  by (induction es rule: warnings.induct) simp_all

lemma error_logs_append: "error_logs (es @ fs) = error_logs es @ error_logs fs"
  by (induction es rule: error_logs.induct) simp_all

section \<open>Deletion\<close>

lemma delete_photo_dry_run:
  "delete_photo afc True n i p (w, d, e, ef) =
     (emit (UpdateProgress (i + 1) n (''Simulating: '' @ filename p)) w, d + 1, e, ef)"
  by (simp add: delete_photo_def)

lemma dry_run_loop:
  "for_enumerate (delete_photo afc True n) i ps (w, d, e, ef) = (w', d', e', ef') \<Longrightarrow>
     dev w' = dev w \<and> rm_calls (trace w') = rm_calls (trace w) \<and>
     d' = d + length ps \<and> e' = e \<and> ef' = ef"
proof (induction ps arbitrary: i w d e ef)
  case Nil
  then show ?case by simp
next
  case (Cons p ps)
  from Cons.prems have
    "for_enumerate (delete_photo afc True n) (Suc i) ps
       (emit (UpdateProgress (i + 1) n (''Simulating: '' @ filename p)) w, d + 1, e, ef)
     = (w', d', e', ef')"
    by (simp add: delete_photo_dry_run)
  from Cons.IH [OF this] show ?case
    by (simp add: emit_def rm_calls_append)
qed

lemma delete_photo_tally:
  "delete_photo afc dry_run n i p (w, d, e, ef) = (w', d', e', ef') \<Longrightarrow>
     d' + e' = d + e + 1 \<and> e' + length ef = e + length ef' \<and>
     progress_updates (trace w') =
       progress_updates (trace w) @
         [(i + 1, n, (if dry_run then ''Simulating'' else ''Deleting'') @ '': '' @ filename p)]"
  by (auto simp: delete_photo_def call_rm_def emit_def progress_updates_append
           split: prod.splits sum.splits if_splits)

lemma delete_loop_tally:
  "for_enumerate (delete_photo afc dry_run n) i ps (w, d, e, ef) = (w', d', e', ef') \<Longrightarrow>
     d' + e' = d + e + length ps \<and> e' + length ef = e + length ef' \<and>
     progress_updates (trace w') =
       progress_updates (trace w) @
         map (\<lambda>(k, p). (k + 1, n,
                (if dry_run then ''Simulating'' else ''Deleting'') @ '': '' @ filename p))
           (enumerate i ps)"
proof (induction ps arbitrary: i w d e ef)
  case Nil
  then show ?case by simp
next
  case (Cons p ps)
  obtain w1 d1 e1 ef1 where
    s: "delete_photo afc dry_run n i p (w, d, e, ef) = (w1, d1, e1, ef1)"
    by (metis prod_cases4)
  with Cons.prems have
    "for_enumerate (delete_photo afc dry_run n) (Suc i) ps (w1, d1, e1, ef1) = (w', d', e', ef')"
    by simp
  from Cons.IH [OF this] delete_photo_tally [OF s] show ?case
    by simp
qed

lemma delete_photo_real:
  "delete_photo afc False n i p (w, d, e, ef) = (w', d', e', ef') \<Longrightarrow>
     \<exists>r. rm_calls (trace w') = rm_calls (trace w) @ [(path p, r)] \<and>
         ef' = ef @ (if isl r then [filename p] else []) \<and>
         d' = d + (if isl r then 0 else 1) \<and>
         e' = e + (if isl r then 1 else 0) \<and>
         error_logs (trace w') = error_logs (trace w) @
           (if isl r then [''Failed to delete '' @ path p @ '': '' @ projl r] else [])"
proof -
  assume h: "delete_photo afc False n i p (w, d, e, ef) = (w', d', e', ef')"
  obtain r d1 where c: "rm afc (dev w) (path p) = (r, d1)"
    by (cases "rm afc (dev w) (path p)")
  show ?thesis
  proof (rule exI [of _ r], cases r)
    case (Inl x)
    with h c show "rm_calls (trace w') = rm_calls (trace w) @ [(path p, r)] \<and>
         ef' = ef @ (if isl r then [filename p] else []) \<and>
         d' = d + (if isl r then 0 else 1) \<and>
         e' = e + (if isl r then 1 else 0) \<and>
         error_logs (trace w') = error_logs (trace w) @
           (if isl r then [''Failed to delete '' @ path p @ '': '' @ projl r] else [])"
      by (auto simp: delete_photo_def call_rm_def emit_def rm_calls_append
            error_logs_append)
  next
    case (Inr u)
    with h c show "rm_calls (trace w') = rm_calls (trace w) @ [(path p, r)] \<and>
         ef' = ef @ (if isl r then [filename p] else []) \<and>
         d' = d + (if isl r then 0 else 1) \<and>
         e' = e + (if isl r then 1 else 0) \<and>
         error_logs (trace w') = error_logs (trace w) @
           (if isl r then [''Failed to delete '' @ path p @ '': '' @ projl r] else [])"
      by (auto simp: delete_photo_def call_rm_def emit_def rm_calls_append
            error_logs_append)
  qed
qed

lemma delete_loop_real:
  "for_enumerate (delete_photo afc False n) i ps (w, d, e, ef) = (w', d', e', ef') \<Longrightarrow>
     \<exists>rs. length rs = length ps \<and>
          rm_calls (trace w') = rm_calls (trace w) @ zip (map path ps) rs \<and>
          ef' = ef @ map (filename \<circ> fst) (filter (isl \<circ> snd) (zip ps rs)) \<and>
          d' = d + length (filter (\<lambda>r. \<not> isl r) rs) \<and>
          e' = e + length (filter isl rs) \<and>
          error_logs (trace w') = error_logs (trace w) @
            map (\<lambda>(p, r). ''Failed to delete '' @ path p @ '': '' @ projl r)
              (filter (isl \<circ> snd) (zip ps rs))"
proof (induction ps arbitrary: i w d e ef)
  case Nil
  then show ?case by simp
next
  case (Cons p ps)
  obtain w1 d1 e1 ef1 where
    s: "delete_photo afc False n i p (w, d, e, ef) = (w1, d1, e1, ef1)"
    by (metis prod_cases4)
  with Cons.prems have
    "for_enumerate (delete_photo afc False n) (Suc i) ps (w1, d1, e1, ef1) = (w', d', e', ef')"
    by simp
  from Cons.IH [OF this] obtain rs where
    rs: "length rs = length ps"
        "rm_calls (trace w') = rm_calls (trace w1) @ zip (map path ps) rs"
        "ef' = ef1 @ map (filename \<circ> fst) (filter (isl \<circ> snd) (zip ps rs))"
        "d' = d1 + length (filter (\<lambda>r. \<not> isl r) rs)"
        "e' = e1 + length (filter isl rs)"
        "error_logs (trace w') = error_logs (trace w1) @
            map (\<lambda>(p, r). ''Failed to delete '' @ path p @ '': '' @ projl r)
              (filter (isl \<circ> snd) (zip ps rs))"
    by blast
  from delete_photo_real [OF s] obtain r where
    r: "rm_calls (trace w1) = rm_calls (trace w) @ [(path p, r)]"
       "ef1 = ef @ (if isl r then [filename p] else [])"
       "d1 = d + (if isl r then 0 else 1)"
       "e1 = e + (if isl r then 1 else 0)"
       "error_logs (trace w1) = error_logs (trace w) @
           (if isl r then [''Failed to delete '' @ path p @ '': '' @ projl r] else [])"
    by blast
  show ?case
    by (rule exI [of _ "r # rs"]) (simp add: rs r comp_def)
qed

text \<open>
  C1. A dry run never calls the device's remove operation and leaves the device as it
  was: the calls to \<^verbatim>\<open>rm\<close> recorded in the trace are those recorded before it
  started. Its report counts every item as deleted, has no error and no failed file,
  and carries the dry-run mode; the application state is unchanged.
\<close>

theorem delete_thread_dry_run:
  "delete_thread afc True w a = (w', r, a') \<Longrightarrow>
     dev w' = dev w \<and> rm_calls (trace w') = rm_calls (trace w) \<and>
     deleted r = length (photos_data a) \<and> errors r = 0 \<and> error_files r = [] \<and>
     mode r = ''[DRY RUN] '' \<and> a' = a"
proof -
  assume h: "delete_thread afc True w a = (w', r, a')"
  obtain w1 d1 e1 ef1 where
    l: "for_enumerate (delete_photo afc True (length (photos_data a))) 0 (photos_data a)
          (w, 0, 0, []) = (w1, d1, e1, ef1)"
    by (metis prod_cases4)
  from dry_run_loop [OF l] have
    f: "dev w1 = dev w" "rm_calls (trace w1) = rm_calls (trace w)"
       "d1 = length (photos_data a)" "e1 = 0" "ef1 = []"
    by simp_all
  from h l have "w' = w1"
    and "r = \<lparr>deleted = d1, errors = e1, error_files = ef1, mode = ''[DRY RUN] ''\<rparr>"
    and "a' = a"
    by (simp_all add: delete_thread_def)
  with f show ?thesis by simp
qed

theorem delete_thread_dry_run_witness:
  "delete_thread (example_afc True) True \<lparr>dev = [], trace = []\<rparr>
     \<lparr>photos_data = two_photos, thumbnails = []\<rparr> =
   (\<lparr>dev = [],
      trace = [UpdateProgress 1 2 ''Simulating: IMG_1.JPG'',
               UpdateProgress 2 2 ''Simulating: IMG_2.JPG'']\<rparr>,
    \<lparr>deleted = 2, errors = 0, error_files = [], mode = ''[DRY RUN] ''\<rparr>,
    \<lparr>photos_data = two_photos, thumbnails = []\<rparr>)
   \<and> rm_calls [UpdateProgress 1 2 ''Simulating: IMG_1.JPG'',
               UpdateProgress 2 2 ''Simulating: IMG_2.JPG''] = []"
proof -
  have h: "delete_thread (example_afc True) True \<lparr>dev = [], trace = []\<rparr>
     \<lparr>photos_data = two_photos, thumbnails = []\<rparr> =
   (\<lparr>dev = [],
      trace = [UpdateProgress 1 2 ''Simulating: IMG_1.JPG'',
               UpdateProgress 2 2 ''Simulating: IMG_2.JPG'']\<rparr>,
    \<lparr>deleted = 2, errors = 0, error_files = [], mode = ''[DRY RUN] ''\<rparr>,
    \<lparr>photos_data = two_photos, thumbnails = []\<rparr>)"
    by (simp add: delete_thread_def delete_photo_def two_photos_def example_photo_def emit_def)
  from delete_thread_dry_run [OF h] show ?thesis
    using h by simp
qed

text \<open>
  C10. For a dry run and for a real run alike, every item adds one to exactly one of the
  two tallies: the deleted count and the number of failed files add up to the number
  of items, the error count is the number of failed files, and one progress update
  is sent per item.
\<close>

theorem delete_thread_tallies:
  "delete_thread afc dry_run \<lparr>dev = d, trace = []\<rparr> a = (w', r, a') \<Longrightarrow>
     deleted r + length (error_files r) = length (photos_data a) \<and>
     errors r = length (error_files r) \<and>
     length (progress_updates (trace w')) = length (photos_data a)"
proof -
  assume h: "delete_thread afc dry_run \<lparr>dev = d, trace = []\<rparr> a = (w', r, a')"
  obtain w1 d1 e1 ef1 where
    l: "for_enumerate (delete_photo afc dry_run (length (photos_data a))) 0 (photos_data a)
          (\<lparr>dev = d, trace = []\<rparr>, 0, 0, []) = (w1, d1, e1, ef1)"
    by (metis prod_cases4)
  from h l have eq: "w' = w1" "deleted r = d1" "errors r = e1" "error_files r = ef1"
    by (auto simp: delete_thread_def)
  from delete_loop_tally [OF l] show ?thesis
    using eq by simp
qed

theorem delete_thread_tallies_witness:
  "delete_thread (rm_failing ''/DCIM/100APPLE/IMG_2.JPG'' ''permission denied'') False
     \<lparr>dev = [], trace = []\<rparr> \<lparr>photos_data = two_photos, thumbnails = []\<rparr> =
   (\<lparr>dev = [''/DCIM/100APPLE/IMG_1.JPG''],
      trace = [Rm ''/DCIM/100APPLE/IMG_1.JPG'' (Inr ()),
               UpdateProgress 1 2 ''Deleting: IMG_1.JPG'',
               Rm ''/DCIM/100APPLE/IMG_2.JPG'' (Inl ''permission denied''),
               LogError ''Failed to delete /DCIM/100APPLE/IMG_2.JPG: permission denied'',
               UpdateProgress 2 2 ''Deleting: IMG_2.JPG'']\<rparr>,
    \<lparr>deleted = 1, errors = 1, error_files = [''IMG_2.JPG''], mode = []\<rparr>,
    \<lparr>photos_data = [], thumbnails = []\<rparr>)
   \<and> (1::nat) + length [''IMG_2.JPG''] = length two_photos"
proof -
  have h: "delete_thread (rm_failing ''/DCIM/100APPLE/IMG_2.JPG'' ''permission denied'') False
     \<lparr>dev = [], trace = []\<rparr> \<lparr>photos_data = two_photos, thumbnails = []\<rparr> =
   (\<lparr>dev = [''/DCIM/100APPLE/IMG_1.JPG''],
      trace = [Rm ''/DCIM/100APPLE/IMG_1.JPG'' (Inr ()),
               UpdateProgress 1 2 ''Deleting: IMG_1.JPG'',
               Rm ''/DCIM/100APPLE/IMG_2.JPG'' (Inl ''permission denied''),
               LogError ''Failed to delete /DCIM/100APPLE/IMG_2.JPG: permission denied'',
               UpdateProgress 2 2 ''Deleting: IMG_2.JPG'']\<rparr>,
    \<lparr>deleted = 1, errors = 1, error_files = [''IMG_2.JPG''], mode = []\<rparr>,
    \<lparr>photos_data = [], thumbnails = []\<rparr>)"
    by (simp add: delete_thread_def delete_photo_def two_photos_def example_photo_def
          rm_failing_def call_rm_def emit_def)
  from delete_thread_tallies [OF h] show ?thesis
    using h by simp
qed

text \<open>
  C4, as amended. In a real run a failed removal never ends the batch: \<^verbatim>\<open>rm\<close> is
  called once for every item, in the order of the list, whatever the earlier calls
  answered. The failed list holds the file names of exactly the items whose call
  raised, in order, and nothing else: the cause is not part of the report. It is
  written to the error log, one line for each item whose call raised, in order, made
  of the item's path and the text of the exception. The error count and the deleted
  count are the numbers of calls that raised and that returned.
\<close>

theorem delete_thread_isolates_failures:
  "delete_thread afc False \<lparr>dev = d, trace = []\<rparr> a = (w', r, a') \<Longrightarrow>
     map fst (rm_calls (trace w')) = map path (photos_data a) \<and>
     error_files r =
       map (filename \<circ> fst)
         (filter (isl \<circ> snd) (zip (photos_data a) (map snd (rm_calls (trace w'))))) \<and>
     errors r = length (filter (isl \<circ> snd) (rm_calls (trace w'))) \<and>
     deleted r = length (filter (\<lambda>c. \<not> isl (snd c)) (rm_calls (trace w'))) \<and>
     error_logs (trace w') =
       map (\<lambda>(p, c). ''Failed to delete '' @ path p @ '': '' @ projl c)
         (filter (isl \<circ> snd) (zip (photos_data a) (map snd (rm_calls (trace w')))))"
proof -
  assume h: "delete_thread afc False \<lparr>dev = d, trace = []\<rparr> a = (w', r, a')"
  obtain w1 d1 e1 ef1 where
    l: "for_enumerate (delete_photo afc False (length (photos_data a))) 0 (photos_data a)
          (\<lparr>dev = d, trace = []\<rparr>, 0, 0, []) = (w1, d1, e1, ef1)"
    by (metis prod_cases4)
  from h l have eq: "w' = w1" "deleted r = d1" "errors r = e1" "error_files r = ef1"
    by (auto simp: delete_thread_def)
  from delete_loop_real [OF l] obtain rs where
    rs: "length rs = length (photos_data a)"
        "rm_calls (trace w1) = zip (map path (photos_data a)) rs"
        "ef1 = map (filename \<circ> fst) (filter (isl \<circ> snd) (zip (photos_data a) rs))"
        "d1 = length (filter (\<lambda>r. \<not> isl r) rs)"
        "e1 = length (filter isl rs)"
        "error_logs (trace w1) =
           map (\<lambda>(p, r). ''Failed to delete '' @ path p @ '': '' @ projl r)
             (filter (isl \<circ> snd) (zip (photos_data a) rs))"
    by auto
  have m: "map snd (zip (map path (photos_data a)) rs) = rs"
          "map fst (zip (map path (photos_data a)) rs) = map path (photos_data a)"
    using rs(1) by simp_all
  have f1: "length (filter (isl \<circ> snd) (zip (map path (photos_data a)) rs))
             = length (filter isl rs)"
    using m(1) by (metis filter_map length_map)
  have f2: "length (filter (\<lambda>c. \<not> isl (snd c)) (zip (map path (photos_data a)) rs))
             = length (filter (\<lambda>r. \<not> isl r) rs)"
  proof -
    have "filter (\<lambda>r. \<not> isl r) (map snd (zip (map path (photos_data a)) rs))
          = map snd (filter ((\<lambda>r. \<not> isl r) \<circ> snd) (zip (map path (photos_data a)) rs))"
      by (rule filter_map)
    then show ?thesis
      using m(1) by (metis (no_types, lifting) comp_apply filter_cong length_map)
  qed
  show ?thesis
    using eq rs m f1 f2 by simp
qed

theorem delete_thread_isolates_failures_witness:
  "delete_thread (rm_failing ''/DCIM/100APPLE/IMG_3.JPG'' ''permission denied'') False
     \<lparr>dev = [], trace = []\<rparr> \<lparr>photos_data = five_photos, thumbnails = []\<rparr> =
   (\<lparr>dev = [''/DCIM/100APPLE/IMG_5.JPG'', ''/DCIM/100APPLE/IMG_4.JPG'',
             ''/DCIM/100APPLE/IMG_2.JPG'', ''/DCIM/100APPLE/IMG_1.JPG''],
      trace = [Rm ''/DCIM/100APPLE/IMG_1.JPG'' (Inr ()),
               UpdateProgress 1 5 ''Deleting: IMG_1.JPG'',
               Rm ''/DCIM/100APPLE/IMG_2.JPG'' (Inr ()),
               UpdateProgress 2 5 ''Deleting: IMG_2.JPG'',
               Rm ''/DCIM/100APPLE/IMG_3.JPG'' (Inl ''permission denied''),
               LogError ''Failed to delete /DCIM/100APPLE/IMG_3.JPG: permission denied'',
               UpdateProgress 3 5 ''Deleting: IMG_3.JPG'',
               Rm ''/DCIM/100APPLE/IMG_4.JPG'' (Inr ()),
               UpdateProgress 4 5 ''Deleting: IMG_4.JPG'',
               Rm ''/DCIM/100APPLE/IMG_5.JPG'' (Inr ()),
               UpdateProgress 5 5 ''Deleting: IMG_5.JPG'']\<rparr>,
    \<lparr>deleted = 4, errors = 1, error_files = [''IMG_3.JPG''], mode = []\<rparr>,
    \<lparr>photos_data = [], thumbnails = []\<rparr>)
   \<and> map path five_photos =
       [''/DCIM/100APPLE/IMG_1.JPG'', ''/DCIM/100APPLE/IMG_2.JPG'',
        ''/DCIM/100APPLE/IMG_3.JPG'', ''/DCIM/100APPLE/IMG_4.JPG'',
        ''/DCIM/100APPLE/IMG_5.JPG'']
   \<and> error_logs
        [Rm ''/DCIM/100APPLE/IMG_1.JPG'' (Inr ()),
         UpdateProgress 1 5 ''Deleting: IMG_1.JPG'',
         Rm ''/DCIM/100APPLE/IMG_2.JPG'' (Inr ()),
         UpdateProgress 2 5 ''Deleting: IMG_2.JPG'',
         Rm ''/DCIM/100APPLE/IMG_3.JPG'' (Inl ''permission denied''),
         LogError ''Failed to delete /DCIM/100APPLE/IMG_3.JPG: permission denied'',
         UpdateProgress 3 5 ''Deleting: IMG_3.JPG'',
         Rm ''/DCIM/100APPLE/IMG_4.JPG'' (Inr ()),
         UpdateProgress 4 5 ''Deleting: IMG_4.JPG'',
         Rm ''/DCIM/100APPLE/IMG_5.JPG'' (Inr ()),
         UpdateProgress 5 5 ''Deleting: IMG_5.JPG'']
     = [''Failed to delete /DCIM/100APPLE/IMG_3.JPG: permission denied'']"
proof -
  have h: "delete_thread (rm_failing ''/DCIM/100APPLE/IMG_3.JPG'' ''permission denied'') False
     \<lparr>dev = [], trace = []\<rparr> \<lparr>photos_data = five_photos, thumbnails = []\<rparr> =
   (\<lparr>dev = [''/DCIM/100APPLE/IMG_5.JPG'', ''/DCIM/100APPLE/IMG_4.JPG'',
             ''/DCIM/100APPLE/IMG_2.JPG'', ''/DCIM/100APPLE/IMG_1.JPG''],
      trace = [Rm ''/DCIM/100APPLE/IMG_1.JPG'' (Inr ()),
               UpdateProgress 1 5 ''Deleting: IMG_1.JPG'',
               Rm ''/DCIM/100APPLE/IMG_2.JPG'' (Inr ()),
               UpdateProgress 2 5 ''Deleting: IMG_2.JPG'',
               Rm ''/DCIM/100APPLE/IMG_3.JPG'' (Inl ''permission denied''),
               LogError ''Failed to delete /DCIM/100APPLE/IMG_3.JPG: permission denied'',
               UpdateProgress 3 5 ''Deleting: IMG_3.JPG'',
               Rm ''/DCIM/100APPLE/IMG_4.JPG'' (Inr ()),
               UpdateProgress 4 5 ''Deleting: IMG_4.JPG'',
               Rm ''/DCIM/100APPLE/IMG_5.JPG'' (Inr ()),
               UpdateProgress 5 5 ''Deleting: IMG_5.JPG'']\<rparr>,
    \<lparr>deleted = 4, errors = 1, error_files = [''IMG_3.JPG''], mode = []\<rparr>,
    \<lparr>photos_data = [], thumbnails = []\<rparr>)"
    by (simp add: delete_thread_def delete_photo_def five_photos_def example_photo_def
          rm_failing_def call_rm_def emit_def)
  from delete_thread_isolates_failures [OF h] show ?thesis
    using h by simp
qed

text \<open>
  C4 as stated fails: the failed list records no cause. Item 3 of 5 fails once with
  ``permission denied'' and once with ``no such file''; the two reports are the same,
  and their failed list is the bare file name.
\<close>

theorem delete_thread_cause_counterexample:
  "fst (snd (delete_thread (rm_failing ''/DCIM/100APPLE/IMG_3.JPG'' ''permission denied'')
              False \<lparr>dev = [], trace = []\<rparr> \<lparr>photos_data = five_photos, thumbnails = []\<rparr>))
   = fst (snd (delete_thread (rm_failing ''/DCIM/100APPLE/IMG_3.JPG'' ''no such file'')
              False \<lparr>dev = [], trace = []\<rparr> \<lparr>photos_data = five_photos, thumbnails = []\<rparr>))
   \<and> error_files
        (fst (snd (delete_thread (rm_failing ''/DCIM/100APPLE/IMG_3.JPG'' ''permission denied'')
              False \<lparr>dev = [], trace = []\<rparr> \<lparr>photos_data = five_photos, thumbnails = []\<rparr>)))
     = [''IMG_3.JPG'']"
  by (simp add: delete_thread_def delete_photo_def five_photos_def example_photo_def
        rm_failing_def call_rm_def emit_def)

text \<open>
  C3 fails on the code. \<^verbatim>\<open>_delete_selected\<close> reads the ticked thumbnails only for
  its first guard; \<^verbatim>\<open>delete_thread\<close> then iterates \<^verbatim>\<open>self.photos_data\<close>. With two
  scanned photos of which the second is unticked, a confirmed real run removes both.
\<close>

theorem delete_selected_removes_deselected:
  "delete_selected (Some (example_afc True)) False True True []
     \<lparr>photos_data = two_photos,
      thumbnails =
        [\<lparr>thumb_path = ''/DCIM/100APPLE/IMG_1.JPG'', thumb_filename = ''IMG_1.JPG'',
          selected = True\<rparr>,
         \<lparr>thumb_path = ''/DCIM/100APPLE/IMG_2.JPG'', thumb_filename = ''IMG_2.JPG'',
          selected = False\<rparr>]\<rparr>
   = Ran \<lparr>dev = [''/DCIM/100APPLE/IMG_2.JPG'', ''/DCIM/100APPLE/IMG_1.JPG''],
          trace = [Rm ''/DCIM/100APPLE/IMG_1.JPG'' (Inr ()),
                   UpdateProgress 1 2 ''Deleting: IMG_1.JPG'',
                   Rm ''/DCIM/100APPLE/IMG_2.JPG'' (Inr ()),
                   UpdateProgress 2 2 ''Deleting: IMG_2.JPG'']\<rparr>
         \<lparr>deleted = 2, errors = 0, error_files = [], mode = []\<rparr>
         \<lparr>photos_data = [], thumbnails = []\<rparr>"
  by (simp add: delete_selected_def get_selected_def delete_thread_def delete_photo_def
        two_photos_def example_photo_def example_afc_def call_rm_def emit_def)

section \<open>Scanning\<close>

subsection \<open>The structure of a scan\<close>

lemma scan_thread_cases:
  assumes "scan_thread afc fts c w a = (w', a')"
  obtains (failed) e w1 where
      "call_listdir afc ''/DCIM'' w = (Inl e, w1)"
      "w' = emit (LogError (''Scan failed: '' @ e)) w1" "a' = a"
  | (scanned) entries w1 w2 all_photos scan_errors w3 old_photos k ts where
      "call_listdir afc ''/DCIM'' w = (Inr entries, w1)"
      "scan_folders afc (filter (\<lambda>f. f \<notin> set [''.'', ''..'']) entries) w1
         = (w2, all_photos, scan_errors)"
      "check_dates afc fts c all_photos w2 = (w3, old_photos, k)"
      "load_thumbnails afc old_photos
         (if k > 0
          then emit (LogWarning (''Could not check dates for '' @ str_nat k @ '' files'')) w3
          else w3, thumbnails a) = (w', ts)"
      "a' = \<lparr>photos_data = old_photos, thumbnails = ts\<rparr>"
proof -
  obtain r w1 where c: "call_listdir afc ''/DCIM'' w = (r, w1)"
    by (cases "call_listdir afc ''/DCIM'' w")
  show thesis
  proof (cases r)
    case (Inl e)
    with c assms show thesis
      by (intro failed [of e w1]) (simp_all add: scan_thread_def)
  next
    case (Inr entries)
    obtain w2 all_photos scan_errors where
      f: "scan_folders afc (filter (\<lambda>f. f \<notin> set [''.'', ''..'']) entries) w1
            = (w2, all_photos, scan_errors)"
      by (metis prod_cases3)
    obtain w3 old_photos k where
      d: "check_dates afc fts c all_photos w2 = (w3, old_photos, k)"
      by (metis prod_cases3)
    obtain w5 ts where
      t: "load_thumbnails afc old_photos
         (if k > 0
          then emit (LogWarning (''Could not check dates for '' @ str_nat k @ '' files'')) w3
          else w3, thumbnails a) = (w5, ts)"
      by (cases "load_thumbnails afc old_photos
         (if k > 0
          then emit (LogWarning (''Could not check dates for '' @ str_nat k @ '' files'')) w3
          else w3, thumbnails a)")
    from assms c Inr f d t have "w' = w5" "a' = \<lparr>photos_data = old_photos, thumbnails = ts\<rparr>"
      by (simp_all add: scan_thread_def Let_def)
    with c Inr f d t show thesis
      by (intro scanned [of entries w1 w2 all_photos scan_errors w3 old_photos k ts]) simp_all
  qed
qed

subsection \<open>The three loops\<close>

lemma scan_folder_step:
  "scan_folder afc n i f (w, ap, se) = (w', ap', se') \<Longrightarrow>
     \<exists>r. listdir_calls (trace w') = listdir_calls (trace w) @ [(folder_path_of f, r)] \<and>
         stat_calls (trace w') = stat_calls (trace w) \<and>
         warnings (trace w') = warnings (trace w) @
           (if isl r then [''Error scanning folder '' @ f @ '': '' @ projl r] else []) \<and>
         progress_updates (trace w') = progress_updates (trace w) @
           (if isl r then [] else [(i + 1, n, ''Scanning '' @ f @ ''...'')]) \<and>
         ap' = ap @ folder_media (folder_path_of f, r) \<and>
         se' = se @ (if isl r then [''Folder '' @ f @ '': '' @ projl r] else [])"
proof -
  assume h: "scan_folder afc n i f (w, ap, se) = (w', ap', se')"
  obtain r d1 where c: "listdir afc (dev w) (folder_path_of f) = (r, d1)"
    by (cases "listdir afc (dev w) (folder_path_of f)")
  show ?thesis
  proof (rule exI [of _ r], cases r)
    case (Inl e)
    with h c show "listdir_calls (trace w') = listdir_calls (trace w) @ [(folder_path_of f, r)] \<and>
         stat_calls (trace w') = stat_calls (trace w) \<and>
         warnings (trace w') = warnings (trace w) @
           (if isl r then [''Error scanning folder '' @ f @ '': '' @ projl r] else []) \<and>
         progress_updates (trace w') = progress_updates (trace w) @
           (if isl r then [] else [(i + 1, n, ''Scanning '' @ f @ ''...'')]) \<and>
         ap' = ap @ folder_media (folder_path_of f, r) \<and>
         se' = se @ (if isl r then [''Folder '' @ f @ '': '' @ projl r] else [])"
      by (auto simp: scan_folder_def call_listdir_def emit_def folder_media_def
            listdir_calls_append stat_calls_append warnings_append progress_updates_append)
  next
    case (Inr files)
    with h c show "listdir_calls (trace w') = listdir_calls (trace w) @ [(folder_path_of f, r)] \<and>
         stat_calls (trace w') = stat_calls (trace w) \<and>
         warnings (trace w') = warnings (trace w) @
           (if isl r then [''Error scanning folder '' @ f @ '': '' @ projl r] else []) \<and>
         progress_updates (trace w') = progress_updates (trace w) @
           (if isl r then [] else [(i + 1, n, ''Scanning '' @ f @ ''...'')]) \<and>
         ap' = ap @ folder_media (folder_path_of f, r) \<and>
         se' = se @ (if isl r then [''Folder '' @ f @ '': '' @ projl r] else [])"
      by (auto simp: scan_folder_def call_listdir_def emit_def folder_media_def
            listdir_calls_append stat_calls_append warnings_append progress_updates_append)
  qed
qed

lemma scan_folders_loop:
  "for_enumerate (scan_folder afc n) i fs (w, ap, se) = (w', ap', se') \<Longrightarrow>
     \<exists>rs. length rs = length fs \<and>
       listdir_calls (trace w') = listdir_calls (trace w) @ zip (map folder_path_of fs) rs \<and>
       stat_calls (trace w') = stat_calls (trace w) \<and>
       warnings (trace w') = warnings (trace w) @
         map (\<lambda>(f, r). ''Error scanning folder '' @ f @ '': '' @ projl r)
           (filter (isl \<circ> snd) (zip fs rs)) \<and>
       progress_updates (trace w') = progress_updates (trace w) @
         map (\<lambda>(k, f, r). (k + 1, n, ''Scanning '' @ f @ ''...''))
           (filter (\<lambda>(k, f, r). \<not> isl r) (enumerate i (zip fs rs))) \<and>
       ap' = ap @ concat (map folder_media (zip (map folder_path_of fs) rs)) \<and>
       se' = se @ map (\<lambda>(f, r). ''Folder '' @ f @ '': '' @ projl r)
           (filter (isl \<circ> snd) (zip fs rs))"
proof (induction fs arbitrary: i w ap se)
  case Nil
  then show ?case by simp
next
  case (Cons f fs)
  obtain w1 ap1 se1 where
    s: "scan_folder afc n i f (w, ap, se) = (w1, ap1, se1)"
    by (metis prod_cases3)
  with Cons.prems have
    "for_enumerate (scan_folder afc n) (Suc i) fs (w1, ap1, se1) = (w', ap', se')"
    by simp
  from Cons.IH [OF this] obtain rs where
    rs: "length rs = length fs"
       "listdir_calls (trace w') = listdir_calls (trace w1) @ zip (map folder_path_of fs) rs"
       "stat_calls (trace w') = stat_calls (trace w1)"
       "warnings (trace w') = warnings (trace w1) @
         map (\<lambda>(f, r). ''Error scanning folder '' @ f @ '': '' @ projl r)
           (filter (isl \<circ> snd) (zip fs rs))"
       "progress_updates (trace w') = progress_updates (trace w1) @
         map (\<lambda>(k, f, r). (k + 1, n, ''Scanning '' @ f @ ''...''))
           (filter (\<lambda>(k, f, r). \<not> isl r) (enumerate (Suc i) (zip fs rs)))"
       "ap' = ap1 @ concat (map folder_media (zip (map folder_path_of fs) rs))"
       "se' = se1 @ map (\<lambda>(f, r). ''Folder '' @ f @ '': '' @ projl r)
           (filter (isl \<circ> snd) (zip fs rs))"
    by blast
  from scan_folder_step [OF s] obtain r where
    r: "listdir_calls (trace w1) = listdir_calls (trace w) @ [(folder_path_of f, r)]"
       "stat_calls (trace w1) = stat_calls (trace w)"
       "warnings (trace w1) = warnings (trace w) @
           (if isl r then [''Error scanning folder '' @ f @ '': '' @ projl r] else [])"
       "progress_updates (trace w1) = progress_updates (trace w) @
           (if isl r then [] else [(i + 1, n, ''Scanning '' @ f @ ''...'')])"
       "ap1 = ap @ folder_media (folder_path_of f, r)"
       "se1 = se @ (if isl r then [''Folder '' @ f @ '': '' @ projl r] else [])"
    by blast
  show ?case
    by (rule exI [of _ "r # rs"]) (simp add: rs r comp_def)
qed

lemma length_old_item:
  "length (old_item fts c (x, r)) = (if is_old fts c r then 1 else 0)"
  by (auto simp: old_item_def is_old_def split: sum.splits)

lemma check_date_step:
  "check_date afc fts c n i x (w, old, k) = (w', old', k') \<Longrightarrow>
     \<exists>r. stat_calls (trace w') = stat_calls (trace w) @ [(x, r)] \<and>
         listdir_calls (trace w') = listdir_calls (trace w) \<and>
         warnings (trace w') = warnings (trace w) \<and>
         old' = old @ old_item fts c (x, r) \<and>
         k' = k + (if stat_failed fts r then 1 else 0) \<and>
         progress_updates (trace w') = progress_updates (trace w) @
           (if i mod 10 = 0 \<and> \<not> stat_failed fts r
            then [(i + 1, n, found_text (length old'))] else [])"
proof -
  assume h: "check_date afc fts c n i x (w, old, k) = (w', old', k')"
  obtain r d1 where c: "stat afc (dev w) x = (r, d1)"
    by (cases "stat afc (dev w) x")
  have "stat_calls (trace w') = stat_calls (trace w) @ [(x, r)] \<and>
         listdir_calls (trace w') = listdir_calls (trace w) \<and>
         warnings (trace w') = warnings (trace w) \<and>
         old' = old @ old_item fts c (x, r) \<and>
         k' = k + (if stat_failed fts r then 1 else 0) \<and>
         progress_updates (trace w') = progress_updates (trace w) @
           (if i mod 10 = 0 \<and> \<not> stat_failed fts r
            then [(i + 1, n, found_text (length old'))] else [])"
  proof (cases r)
    case (Inl e)
    with h c show ?thesis
      by (auto simp: check_date_def call_stat_def old_item_def stat_failed_def
            stat_calls_append listdir_calls_append warnings_append progress_updates_append)
  next
    case (Inr st)
    show ?thesis
    proof (cases "read_mtime fts st")
      case (Inl e)
      with h c Inr show ?thesis
        by (auto simp: check_date_def call_stat_def old_item_def stat_failed_def
              stat_calls_append listdir_calls_append warnings_append progress_updates_append)
    next
      case m: (Inr mtime)
      with h c Inr show ?thesis
        by (auto simp: check_date_def call_stat_def old_item_def stat_failed_def emit_def
              found_text_def Let_def
              stat_calls_append listdir_calls_append warnings_append progress_updates_append)
    qed
  qed
  then show ?thesis by blast
qed

lemma enumerate_ge: "(k, r) \<in> set (enumerate n xs) \<Longrightarrow> n \<le> k"
  by (simp add: in_set_enumerate_eq)

lemma check_dates_loop:
  "for_enumerate (check_date afc fts c n) i xs (w, old, k) = (w', old', k') \<Longrightarrow>
     \<exists>rs. length rs = length xs \<and>
       stat_calls (trace w') = stat_calls (trace w) @ zip xs rs \<and>
       listdir_calls (trace w') = listdir_calls (trace w) \<and>
       warnings (trace w') = warnings (trace w) \<and>
       old' = old @ concat (map (old_item fts c) (zip xs rs)) \<and>
       k' = k + length (filter (stat_failed fts) rs) \<and>
       progress_updates (trace w') = progress_updates (trace w) @
         map (\<lambda>(j, r). (j + 1, n,
                found_text (length old + length (filter (is_old fts c) (take (j + 1 - i) rs)))))
           (filter (\<lambda>(j, r). j mod 10 = 0 \<and> \<not> stat_failed fts r) (enumerate i rs))"
proof (induction xs arbitrary: i w old k)
  case Nil
  then show ?case by simp
next
  case (Cons x xs)
  obtain w1 old1 k1 where
    s: "check_date afc fts c n i x (w, old, k) = (w1, old1, k1)"
    by (metis prod_cases3)
  with Cons.prems have
    "for_enumerate (check_date afc fts c n) (Suc i) xs (w1, old1, k1) = (w', old', k')"
    by simp
  from Cons.IH [OF this] obtain rs where
    rs: "length rs = length xs"
       "stat_calls (trace w') = stat_calls (trace w1) @ zip xs rs"
       "listdir_calls (trace w') = listdir_calls (trace w1)"
       "warnings (trace w') = warnings (trace w1)"
       "old' = old1 @ concat (map (old_item fts c) (zip xs rs))"
       "k' = k1 + length (filter (stat_failed fts) rs)"
       "progress_updates (trace w') = progress_updates (trace w1) @
         map (\<lambda>(j, r). (j + 1, n,
                found_text (length old1 + length (filter (is_old fts c) (take (j + 1 - Suc i) rs)))))
           (filter (\<lambda>(j, r). j mod 10 = 0 \<and> \<not> stat_failed fts r) (enumerate (Suc i) rs))"
    by blast
  from check_date_step [OF s] obtain r where
    r: "stat_calls (trace w1) = stat_calls (trace w) @ [(x, r)]"
       "listdir_calls (trace w1) = listdir_calls (trace w)"
       "warnings (trace w1) = warnings (trace w)"
       "old1 = old @ old_item fts c (x, r)"
       "k1 = k + (if stat_failed fts r then 1 else 0)"
       "progress_updates (trace w1) = progress_updates (trace w) @
           (if i mod 10 = 0 \<and> \<not> stat_failed fts r
            then [(i + 1, n, found_text (length old1))] else [])"
    by blast
  have len1: "length old1 = length old + (if is_old fts c r then 1 else 0)"
    by (simp add: r(4) length_old_item)
  have tl_eq:
    "map (\<lambda>(j, r'). (j + 1, n,
            found_text (length old1 + length (filter (is_old fts c) (take (j + 1 - Suc i) rs)))))
       (filter (\<lambda>(j, r). j mod 10 = 0 \<and> \<not> stat_failed fts r) (enumerate (Suc i) rs))
     = map (\<lambda>(j, r'). (j + 1, n,
            found_text (length old + length (filter (is_old fts c) (take (j + 1 - i) (r # rs))))))
       (filter (\<lambda>(j, r). j mod 10 = 0 \<and> \<not> stat_failed fts r) (enumerate (Suc i) rs))"
  proof (rule map_cong [OF refl])
    fix y
    assume "y \<in> set (filter (\<lambda>(j, r). j mod 10 = 0 \<and> \<not> stat_failed fts r) (enumerate (Suc i) rs))"
    then have mem: "y \<in> set (enumerate (Suc i) rs)"
      by simp
    obtain j r' where y: "y = (j, r')"
      by (cases y)
    with mem have "(j, r') \<in> set (enumerate (Suc i) rs)"
      by simp
    then have ge: "Suc i \<le> j" by (simp add: enumerate_ge)
    then have "j + 1 - i = Suc (j + 1 - Suc i)" by arith
    then have "take (j + 1 - i) (r # rs) = r # take (j + 1 - Suc i) rs"
      by simp
    then show "(case y of (j, r') \<Rightarrow> (j + 1, n,
            found_text (length old1 + length (filter (is_old fts c) (take (j + 1 - Suc i) rs)))))
        = (case y of (j, r') \<Rightarrow> (j + 1, n,
            found_text (length old + length (filter (is_old fts c) (take (j + 1 - i) (r # rs))))))"
      using y len1 by simp
  qed
  have hd_eq: "length old1 = length old + length (filter (is_old fts c) (take (i + 1 - i) (r # rs)))"
    using len1 by simp
  show ?case
  proof (rule exI [of _ "r # rs"], intro conjI)
    show "length (r # rs) = length (x # xs)" by (simp add: rs)
    show "stat_calls (trace w') = stat_calls (trace w) @ zip (x # xs) (r # rs)"
      by (simp add: rs r)
    show "listdir_calls (trace w') = listdir_calls (trace w)" by (simp add: rs r)
    show "warnings (trace w') = warnings (trace w)" by (simp add: rs r)
    show "old' = old @ concat (map (old_item fts c) (zip (x # xs) (r # rs)))"
      by (simp add: rs r)
    show "k' = k + length (filter (stat_failed fts) (r # rs))" by (simp add: rs r)
    show "progress_updates (trace w') = progress_updates (trace w) @
         map (\<lambda>(j, r'). (j + 1, n,
                found_text (length old + length (filter (is_old fts c) (take (j + 1 - i) (r # rs))))))
           (filter (\<lambda>(j, r). j mod 10 = 0 \<and> \<not> stat_failed fts r) (enumerate i (r # rs)))"
      unfolding rs(7) tl_eq r(6) using hd_eq by simp
  qed
qed

lemma load_thumbnail_step:
  "load_thumbnail afc n i p (w, ts) = (w', ts') \<Longrightarrow>
     stat_calls (trace w') = stat_calls (trace w) \<and>
     listdir_calls (trace w') = listdir_calls (trace w) \<and>
     warnings (trace w') = warnings (trace w) \<and>
     progress_updates (trace w') =
       progress_updates (trace w) @ [(i + 1, n, ''Loading thumbnails...'')] \<and>
     ts' = ts @ [thumb_of p]"
  by (auto simp: load_thumbnail_def call_get_file_contents_def emit_def add_thumbnail_def
        thumb_of_def Let_def
        stat_calls_append listdir_calls_append warnings_append progress_updates_append
      split: prod.splits sum.splits if_splits)

lemma load_thumbnails_loop:
  "for_enumerate (load_thumbnail afc n) i ps (w, ts) = (w', ts') \<Longrightarrow>
     stat_calls (trace w') = stat_calls (trace w) \<and>
     listdir_calls (trace w') = listdir_calls (trace w) \<and>
     warnings (trace w') = warnings (trace w) \<and>
     progress_updates (trace w') =
       progress_updates (trace w) @
         map (\<lambda>(j, p). (j + 1, n, ''Loading thumbnails...'')) (enumerate i ps) \<and>
     ts' = ts @ map thumb_of ps"
proof (induction ps arbitrary: i w ts)
  case Nil
  then show ?case by simp
next
  case (Cons p ps)
  obtain w1 ts1 where s: "load_thumbnail afc n i p (w, ts) = (w1, ts1)"
    by (cases "load_thumbnail afc n i p (w, ts)")
  with Cons.prems have
    "for_enumerate (load_thumbnail afc n) (Suc i) ps (w1, ts1) = (w', ts')"
    by simp
  from Cons.IH [OF this] load_thumbnail_step [OF s] show ?case
    by simp
qed

lemma scan_folders_trace:
  "scan_folders afc fs w = (w', ap, se) \<Longrightarrow>
     \<exists>rs. length rs = length fs \<and>
       listdir_calls (trace w') = listdir_calls (trace w) @ zip (map folder_path_of fs) rs \<and>
       stat_calls (trace w') = stat_calls (trace w) \<and>
       warnings (trace w') = warnings (trace w) @
         map (\<lambda>(f, r). ''Error scanning folder '' @ f @ '': '' @ projl r)
           (filter (isl \<circ> snd) (zip fs rs)) \<and>
       progress_updates (trace w') = progress_updates (trace w) @
         map (\<lambda>(k, f, r). (k + 1, length fs, ''Scanning '' @ f @ ''...''))
           (filter (\<lambda>(k, f, r). \<not> isl r) (enumerate 0 (zip fs rs))) \<and>
       ap = concat (map folder_media (zip (map folder_path_of fs) rs)) \<and>
       se = map (\<lambda>(f, r). ''Folder '' @ f @ '': '' @ projl r)
           (filter (isl \<circ> snd) (zip fs rs))"
  using scan_folders_loop [of afc "length fs" 0 fs w "[]" "[]" w' ap se]
  by (simp add: scan_folders_def)

lemma check_dates_trace:
  "check_dates afc fts c xs w = (w', old, k) \<Longrightarrow>
     \<exists>rs. length rs = length xs \<and>
       stat_calls (trace w') = stat_calls (trace w) @ zip xs rs \<and>
       listdir_calls (trace w') = listdir_calls (trace w) \<and>
       warnings (trace w') = warnings (trace w) \<and>
       old = concat (map (old_item fts c) (zip xs rs)) \<and>
       k = length (filter (stat_failed fts) rs) \<and>
       progress_updates (trace w') = progress_updates (trace w) @
         map (\<lambda>(j, r). (j + 1, length xs,
                found_text (length (filter (is_old fts c) (take (j + 1) rs)))))
           (filter (\<lambda>(j, r). j mod 10 = 0 \<and> \<not> stat_failed fts r) (enumerate 0 rs))"
  using check_dates_loop [of afc fts c "length xs" 0 xs w "[]" 0 w' old k]
  by (simp add: check_dates_def)

lemma load_thumbnails_trace:
  "load_thumbnails afc old (w, ts) = (w', ts') \<Longrightarrow>
     stat_calls (trace w') = stat_calls (trace w) \<and>
     listdir_calls (trace w') = listdir_calls (trace w) \<and>
     warnings (trace w') = warnings (trace w) \<and>
     progress_updates (trace w') =
       progress_updates (trace w) @
         map (\<lambda>(j, p). (j + 1, min (length old) max_thumbnails, ''Loading thumbnails...''))
           (enumerate 0 (take max_thumbnails old)) \<and>
     ts' = ts @ map thumb_of (take max_thumbnails old)"
  using load_thumbnails_loop [of afc "min (length old) max_thumbnails" 0
          "take max_thumbnails old" w ts w' ts']
  by (simp add: load_thumbnails_def)

lemma scan_photos_trace:
  assumes "scan_photos (Some afc) fts (Some c) d a = (w', a')"
  obtains (failed) e where
      "listdir_calls (trace w') = [(''/DCIM'', Inl e)]"
      "stat_calls (trace w') = []" "warnings (trace w') = []"
      "progress_updates (trace w') = []"
      "a' = \<lparr>photos_data = [], thumbnails = []\<rparr>"
  | (scanned) entries fs rs xs ss where
      "fs = filter (\<lambda>f. f \<notin> set [''.'', ''..'']) entries"
      "length rs = length fs"
      "listdir_calls (trace w') = (''/DCIM'', Inr entries) # zip (map folder_path_of fs) rs"
      "xs = concat (map folder_media (zip (map folder_path_of fs) rs))"
      "length ss = length xs"
      "stat_calls (trace w') = zip xs ss"
      "warnings (trace w') =
         map (\<lambda>(f, r). ''Error scanning folder '' @ f @ '': '' @ projl r)
           (filter (isl \<circ> snd) (zip fs rs)) @
         (if 0 < length (filter (stat_failed fts) ss)
          then [''Could not check dates for ''
                 @ str_nat (length (filter (stat_failed fts) ss)) @ '' files'']
          else [])"
      "progress_updates (trace w') =
         map (\<lambda>(k, f, r). (k + 1, length fs, ''Scanning '' @ f @ ''...''))
           (filter (\<lambda>(k, f, r). \<not> isl r) (enumerate 0 (zip fs rs))) @
         map (\<lambda>(j, r). (j + 1, length xs,
                found_text (length (filter (is_old fts c) (take (j + 1) ss)))))
           (filter (\<lambda>(j, r). j mod 10 = 0 \<and> \<not> stat_failed fts r) (enumerate 0 ss)) @
         map (\<lambda>(j, p). (j + 1, min (length (photos_data a')) max_thumbnails,
                ''Loading thumbnails...''))
           (enumerate 0 (take max_thumbnails (photos_data a')))"
      "photos_data a' = concat (map (old_item fts c) (zip xs ss))"
      "thumbnails a' = map thumb_of (take max_thumbnails (photos_data a'))"
proof -
  from assms have
    st: "scan_thread afc fts c \<lparr>dev = d, trace = []\<rparr> \<lparr>photos_data = [], thumbnails = []\<rparr>
               = (w', a')"
    by (simp add: scan_photos_def)
  then show thesis
  proof (cases rule: scan_thread_cases)
    case fl: (failed e w1)
    show thesis
    proof (rule failed [of e])
      from fl show "listdir_calls (trace w') = [(''/DCIM'', Inl e)]"
        by (auto simp: call_listdir_def emit_def listdir_calls_append split: prod.splits)
      from fl show "stat_calls (trace w') = []"
        by (auto simp: call_listdir_def emit_def stat_calls_append split: prod.splits)
      from fl show "warnings (trace w') = []"
        by (auto simp: call_listdir_def emit_def warnings_append split: prod.splits)
      from fl show "progress_updates (trace w') = []"
        by (auto simp: call_listdir_def emit_def progress_updates_append split: prod.splits)
      from fl show "a' = \<lparr>photos_data = [], thumbnails = []\<rparr>" by simp
    qed
  next
    case sc: (scanned entries w1 w2 all_photos scan_errors w3 old_photos k ts)
    define fs where "fs = filter (\<lambda>f. f \<notin> set [''.'', ''..'']) entries"
    define w4 where "w4 = (if k > 0
          then emit (LogWarning (''Could not check dates for '' @ str_nat k @ '' files'')) w3
          else w3)"
    from sc(1) have t1:
      "listdir_calls (trace w1) = [(''/DCIM'', Inr entries)]" "stat_calls (trace w1) = []"
      "warnings (trace w1) = []" "progress_updates (trace w1) = []"
      by (auto simp: call_listdir_def split: prod.splits)
    from scan_folders_trace [OF sc(2) [folded fs_def]] obtain rs where
      rs: "length rs = length fs"
       "listdir_calls (trace w2) = listdir_calls (trace w1) @ zip (map folder_path_of fs) rs"
       "stat_calls (trace w2) = stat_calls (trace w1)"
       "warnings (trace w2) = warnings (trace w1) @
         map (\<lambda>(f, r). ''Error scanning folder '' @ f @ '': '' @ projl r)
           (filter (isl \<circ> snd) (zip fs rs))"
       "progress_updates (trace w2) = progress_updates (trace w1) @
         map (\<lambda>(k, f, r). (k + 1, length fs, ''Scanning '' @ f @ ''...''))
           (filter (\<lambda>(k, f, r). \<not> isl r) (enumerate 0 (zip fs rs)))"
       "all_photos = concat (map folder_media (zip (map folder_path_of fs) rs))"
      by blast
    from check_dates_trace [OF sc(3)] obtain ss where
      ss: "length ss = length all_photos"
       "stat_calls (trace w3) = stat_calls (trace w2) @ zip all_photos ss"
       "listdir_calls (trace w3) = listdir_calls (trace w2)"
       "warnings (trace w3) = warnings (trace w2)"
       "old_photos = concat (map (old_item fts c) (zip all_photos ss))"
       "k = length (filter (stat_failed fts) ss)"
       "progress_updates (trace w3) = progress_updates (trace w2) @
         map (\<lambda>(j, r). (j + 1, length all_photos,
                found_text (length (filter (is_old fts c) (take (j + 1) ss)))))
           (filter (\<lambda>(j, r). j mod 10 = 0 \<and> \<not> stat_failed fts r) (enumerate 0 ss))"
      by blast
    have t4: "stat_calls (trace w4) = stat_calls (trace w3)"
      "listdir_calls (trace w4) = listdir_calls (trace w3)"
      "progress_updates (trace w4) = progress_updates (trace w3)"
      "warnings (trace w4) = warnings (trace w3) @
         (if 0 < k then [''Could not check dates for '' @ str_nat k @ '' files''] else [])"
      by (simp_all add: w4_def emit_def stat_calls_append listdir_calls_append
            progress_updates_append warnings_append)
    from load_thumbnails_trace [OF sc(4) [folded w4_def]] have
      t5: "stat_calls (trace w') = stat_calls (trace w4)"
       "listdir_calls (trace w') = listdir_calls (trace w4)"
       "warnings (trace w') = warnings (trace w4)"
       "progress_updates (trace w') =
          progress_updates (trace w4) @
            map (\<lambda>(j, p). (j + 1, min (length old_photos) max_thumbnails, ''Loading thumbnails...''))
              (enumerate 0 (take max_thumbnails old_photos))"
       "ts = map thumb_of (take max_thumbnails old_photos)"
      by simp_all
    show thesis
    proof (rule scanned [of fs entries rs all_photos ss])
      show "fs = filter (\<lambda>f. f \<notin> set [''.'', ''..'']) entries" by (rule fs_def)
      show "length rs = length fs" by (rule rs(1))
      show "listdir_calls (trace w') = (''/DCIM'', Inr entries) # zip (map folder_path_of fs) rs"
        by (simp add: t5 t4 ss rs t1)
      show "all_photos = concat (map folder_media (zip (map folder_path_of fs) rs))"
        by (rule rs(6))
      show "length ss = length all_photos" by (rule ss(1))
      show "stat_calls (trace w') = zip all_photos ss"
        by (simp add: t5 t4 ss(2) rs(3) t1)
      show "warnings (trace w') =
         map (\<lambda>(f, r). ''Error scanning folder '' @ f @ '': '' @ projl r)
           (filter (isl \<circ> snd) (zip fs rs)) @
         (if 0 < length (filter (stat_failed fts) ss)
          then [''Could not check dates for ''
                 @ str_nat (length (filter (stat_failed fts) ss)) @ '' files'']
          else [])"
        unfolding t5(3) t4(4) ss(4) rs(4) t1(3) ss(6) by simp
      show "photos_data a' = concat (map (old_item fts c) (zip all_photos ss))"
        using sc(5) ss(5) by simp
      show "thumbnails a' = map thumb_of (take max_thumbnails (photos_data a'))"
        using sc(5) t5(5) by simp
      show "progress_updates (trace w') =
         map (\<lambda>(k, f, r). (k + 1, length fs, ''Scanning '' @ f @ ''...''))
           (filter (\<lambda>(k, f, r). \<not> isl r) (enumerate 0 (zip fs rs))) @
         map (\<lambda>(j, r). (j + 1, length all_photos,
                found_text (length (filter (is_old fts c) (take (j + 1) ss)))))
           (filter (\<lambda>(j, r). j mod 10 = 0 \<and> \<not> stat_failed fts r) (enumerate 0 ss)) @
         map (\<lambda>(j, p). (j + 1, min (length (photos_data a')) max_thumbnails,
                ''Loading thumbnails...''))
           (enumerate 0 (take max_thumbnails (photos_data a')))"
        unfolding t5(4) t4(3) ss(7) rs(5) t1(4) using sc(5) by simp
    qed
  qed
qed

subsection \<open>Extensions\<close>

lemma endswith_last:
  "endswith s suf \<Longrightarrow> suf \<noteq> [] \<Longrightarrow> s \<noteq> [] \<and> last s = last suf"
proof -
  assume e: "endswith s suf" and n: "suf \<noteq> []"
  from e have t: "take (length suf) (rev s) = rev suf" by (simp add: endswith_def)
  with n have ne: "rev s \<noteq> []" by auto
  from n have "0 < length suf" by simp
  then have "hd (take (length suf) (rev s)) = hd (rev s)" by (cases "rev s") (simp_all add: take_Cons')
  with t have "hd (rev s) = hd (rev suf)" by simp
  with ne n show ?thesis by (simp add: hd_rev)
qed

lemma endswith_append: "endswith s suf \<Longrightarrow> endswith (pre @ s) suf"
proof -
  assume e: "endswith s suf"
  then have t: "take (length suf) (rev s) = rev suf" by (simp add: endswith_def)
  then have "length (take (length suf) (rev s)) = length (rev suf)" by simp
  then have "length suf \<le> length s" by simp
  with t show ?thesis by (simp add: endswith_def)
qed

lemma take_takeWhile:
  "take n xs = ys \<Longrightarrow> length ys = n \<Longrightarrow> \<forall>y \<in> set ys. P y \<Longrightarrow> take n (takeWhile P xs) = ys"
proof -
  assume t: "take n xs = ys" and l: "length ys = n" and p: "\<forall>y \<in> set ys. P y"
  have "xs = ys @ drop n xs" using t by (metis append_take_drop_id)
  then have "takeWhile P xs = ys @ takeWhile P (drop n xs)"
    using p by (metis takeWhile_append2)
  then show ?thesis using l by simp
qed

lemma endswith_basename:
  "endswith s suf \<Longrightarrow> CHR ''/'' \<notin> set suf \<Longrightarrow> endswith (basename s) suf"
proof -
  assume e: "endswith s suf" and n: "CHR ''/'' \<notin> set suf"
  from e have t: "take (length suf) (rev s) = rev suf" by (simp add: endswith_def)
  have "take (length suf) (takeWhile (\<lambda>c. c \<noteq> CHR ''/'') (rev s)) = rev suf"
    by (rule take_takeWhile [OF t]) (use n in auto)
  then show ?thesis by (simp add: endswith_def basename_def)
qed

lemma lower_char_slash: "(lower_char c \<noteq> CHR ''/'') = (c \<noteq> CHR ''/'')"
proof (cases "65 \<le> (of_char c :: nat) \<and> (of_char c :: nat) \<le> 90")
  case True
  then have "(of_char (lower_char c) :: nat) = of_char c + 32"
    by (simp add: lower_char_def)
  with True have "(of_char (lower_char c) :: nat) \<noteq> 47" "(of_char c :: nat) \<noteq> 47"
    by simp_all
  then have "lower_char c \<noteq> CHR ''/''" "c \<noteq> CHR ''/''"
    by auto
  then show ?thesis by simp
next
  case False
  then show ?thesis by (auto simp: lower_char_def)
qed

lemma lower_basename: "lower (basename p) = basename (lower p)"
proof -
  have "(\<lambda>c. c \<noteq> CHR ''/'') \<circ> lower_char = (\<lambda>c. c \<noteq> CHR ''/'')"
    by (rule ext) (simp add: lower_char_slash)
  then show ?thesis
    by (simp add: lower_def basename_def rev_map takeWhile_map)
qed

lemma lower_append: "lower (a @ b) = lower a @ lower b"
  by (simp add: lower_def)

lemma lower_char_upper_char: "lower_char (upper_char c) = lower_char c"
proof (cases "97 \<le> (of_char c :: nat) \<and> (of_char c :: nat) \<le> 122")
  case True
  then have "(of_char c :: nat) - 32 < 256" by arith
  with True have u: "(of_char (upper_char c) :: nat) = of_char c - 32"
    by (simp add: upper_char_def)
  from True have r: "65 \<le> (of_char c :: nat) - 32 \<and> (of_char c :: nat) - 32 \<le> 90"
    by arith
  have "lower_char (upper_char c) = char_of ((of_char c :: nat) - 32 + 32)"
    unfolding lower_char_def [of "upper_char c"] u using r by simp
  also from True have "\<dots> = c" by simp
  also from True have "c = lower_char c" by (simp add: lower_char_def)
  finally show ?thesis .
next
  case False
  then show ?thesis by (auto simp: upper_char_def)
qed

lemma lower_char_idem: "lower_char (lower_char c) = lower_char c"
proof (cases "65 \<le> (of_char c :: nat) \<and> (of_char c :: nat) \<le> 90")
  case True
  then have "(of_char (lower_char c) :: nat) = of_char c + 32"
    by (simp add: lower_char_def)
  with True show ?thesis by (simp add: lower_char_def [of "lower_char c"])
next
  case False
  then show ?thesis by (auto simp: lower_char_def)
qed

lemma lower_upper: "lower (upper f) = lower f"
  by (simp add: lower_def upper_def lower_char_upper_char)

lemma lower_lower: "lower (lower f) = lower f"
  by (simp add: lower_def lower_char_idem)

lemma image_ext_last:
  "endswith_any s [''.jpg'', ''.jpeg'', ''.png''] \<Longrightarrow> last s = CHR ''g''"
  by (auto simp: endswith_any_def dest!: endswith_last)

lemma heic_ext_last:
  "endswith_any s [''.heic'', ''.heif''] \<Longrightarrow> last s = CHR ''c'' \<or> last s = CHR ''f''"
  by (auto simp: endswith_any_def dest!: endswith_last)

lemma video_ext_last:
  "endswith_any s [''.mov'', ''.mp4'', ''.m4v''] \<Longrightarrow> last s = CHR ''v'' \<or> last s = CHR ''4''"
  by (auto simp: endswith_any_def dest!: endswith_last)

lemma is_media_groups:
  "is_media f =
     (endswith_any (lower f) [''.jpg'', ''.jpeg'', ''.png''] \<or>
      endswith_any (lower f) [''.heic'', ''.heif''] \<or>
      endswith_any (lower f) [''.mov'', ''.mp4'', ''.m4v''])"
  unfolding is_media_def endswith_any_def by (simp only: list_ex_Cons_iff list_ex_Nil_iff) blast

lemma media_kinds:
  "is_media f = (classify_spec f \<noteq> Unsupported)"
  "is_video f = (classify_spec f = Video)"
  "is_heic f = (classify_spec f = HeicImage)"
  "(is_media f \<and> \<not> is_video f \<and> \<not> is_heic f) = (classify_spec f = Image)"
proof -
  let ?i = "endswith_any (lower f) [''.jpg'', ''.jpeg'', ''.png'']"
  let ?h = "endswith_any (lower f) [''.heic'', ''.heif'']"
  let ?v = "endswith_any (lower f) [''.mov'', ''.mp4'', ''.m4v'']"
  have ih: "\<not> (?i \<and> ?h)" using image_ext_last [of "lower f"] heic_ext_last [of "lower f"] by auto
  have iv: "\<not> (?i \<and> ?v)" using image_ext_last [of "lower f"] video_ext_last [of "lower f"] by auto
  have hv: "\<not> (?h \<and> ?v)" using heic_ext_last [of "lower f"] video_ext_last [of "lower f"] by auto
  show "is_media f = (classify_spec f \<noteq> Unsupported)"
    unfolding is_media_groups classify_spec_def by simp
  show "is_video f = (classify_spec f = Video)"
    unfolding is_video_def classify_spec_def using iv hv by auto
  show "is_heic f = (classify_spec f = HeicImage)"
    unfolding is_heic_def classify_spec_def using ih by auto
  show "(is_media f \<and> \<not> is_video f \<and> \<not> is_heic f) = (classify_spec f = Image)"
    unfolding is_media_groups is_video_def is_heic_def classify_spec_def using ih iv by auto
qed

lemma endswith_any_append: "endswith_any s sufs \<Longrightarrow> endswith_any (pre @ s) sufs"
  unfolding endswith_any_def list_ex_iff by (blast intro: endswith_append)

lemma endswith_any_basename:
  "endswith_any s sufs \<Longrightarrow> \<forall>suf \<in> set sufs. CHR ''/'' \<notin> set suf \<Longrightarrow>
     endswith_any (basename s) sufs"
  unfolding endswith_any_def list_ex_iff by (blast intro: endswith_basename)

lemma is_media_append: "is_media f \<Longrightarrow> is_media (pre @ f)"
  unfolding is_media_def lower_append by (rule endswith_any_append)

lemma is_media_basename: "is_media p \<Longrightarrow> is_media (basename p)"
  unfolding is_media_def lower_basename by (rule endswith_any_basename) simp_all

lemma old_item_mem:
  "p \<in> set (old_item fts c (x, r)) \<Longrightarrow>
     \<exists>st. r = Inr st \<and> read_mtime fts st = Inr (date p) \<and> dt_date (date p) < c \<and>
          path p = x \<and> filename p = basename x"
  by (auto simp: old_item_def split: sum.splits if_splits)

lemma folder_media_is_media: "x \<in> set (folder_media (p, r)) \<Longrightarrow> is_media x"
proof -
  assume "x \<in> set (folder_media (p, r))"
  then obtain f where "x = (p @ ''/'') @ f" and "is_media f"
    by (auto simp: folder_media_def split: sum.splits)
  then show ?thesis using is_media_append [of f "p @ ''/''"] by simp
qed

lemma increasing_filter_enumerate:
  "sorted_wrt (<) (map (\<lambda>x. Suc (fst x)) (filter P (enumerate n zs)))"
proof -
  have "sorted_wrt (<) (map fst (enumerate n zs))"
    by (simp add: map_fst_enumerate)
  then have "sorted_wrt (\<lambda>x y. fst x < fst y) (enumerate n zs)"
    unfolding sorted_wrt_map .
  then have "sorted_wrt (\<lambda>x y. fst x < fst y) (filter P (enumerate n zs))"
    by (rule sorted_wrt_filter)
  then show ?thesis by (simp add: sorted_wrt_map)
qed

subsection \<open>Two scans of the example device\<close>

lemma example_scan_flaky:
  "scan_photos (Some (example_afc True)) example_fromtimestamp (Some 20089) []
     \<lparr>photos_data = [], thumbnails = []\<rparr> =
   (\<lparr>dev = [],
      trace =
       [Listdir ''/DCIM'' (Inr [''.'', ''..'', ''100APPLE'', ''101APPLE'', ''102APPLE'']),
        Listdir ''/DCIM/100APPLE''
         (Inr [''IMG_01.JPG'', ''IMG_02.MOV'', ''note.txt'', ''IMG_03.PNG'']),
        UpdateProgress 1 3 ''Scanning 100APPLE...'',
        Listdir ''/DCIM/101APPLE'' (Inl ''connection lost''),
        LogWarning ''Error scanning folder 101APPLE: connection lost'',
        Listdir ''/DCIM/102APPLE'' (Inr [''IMG_04.HEIC'']),
        UpdateProgress 3 3 ''Scanning 102APPLE...'',
        Stat ''/DCIM/100APPLE/IMG_01.JPG''
         (Inr \<lparr>st_mtime = Some 1704067200, st_size = Some 2048\<rparr>),
        UpdateProgress 1 4 ''Checking dates... Found 1 old photos'',
        Stat ''/DCIM/100APPLE/IMG_02.MOV''
         (Inr \<lparr>st_mtime = Some 1748736000, st_size = Some 4096\<rparr>),
        Stat ''/DCIM/100APPLE/IMG_03.PNG'' (Inl ''connection lost''),
        Stat ''/DCIM/102APPLE/IMG_04.HEIC''
         (Inr \<lparr>st_mtime = Some 1704153600, st_size = None\<rparr>),
        LogWarning ''Could not check dates for 1 files'',
        GetFileContents ''/DCIM/100APPLE/IMG_01.JPG'' (Inr ''image bytes''),
        UpdateProgress 1 2 ''Loading thumbnails...'',
        GetFileContents ''/DCIM/102APPLE/IMG_04.HEIC'' (Inr ''image bytes''),
        UpdateProgress 2 2 ''Loading thumbnails...'']\<rparr>,
    \<lparr>photos_data =
       [\<lparr>path = ''/DCIM/100APPLE/IMG_01.JPG'', filename = ''IMG_01.JPG'',
          date = \<lparr>dt_date = 19723, dt_time = 0\<rparr>, size_bytes = 2048\<rparr>,
        \<lparr>path = ''/DCIM/102APPLE/IMG_04.HEIC'', filename = ''IMG_04.HEIC'',
          date = \<lparr>dt_date = 19724, dt_time = 0\<rparr>, size_bytes = 0\<rparr>],
      thumbnails =
       [\<lparr>thumb_path = ''/DCIM/100APPLE/IMG_01.JPG'', thumb_filename = ''IMG_01.JPG'',
          selected = True\<rparr>,
        \<lparr>thumb_path = ''/DCIM/102APPLE/IMG_04.HEIC'', thumb_filename = ''IMG_04.HEIC'',
          selected = True\<rparr>]\<rparr>)"
  by code_simp

lemma example_scan_healthy:
  "scan_photos (Some (example_afc False)) example_fromtimestamp (Some 20089) []
     \<lparr>photos_data = [], thumbnails = []\<rparr> =
   (\<lparr>dev = [],
      trace =
       [Listdir ''/DCIM'' (Inr [''.'', ''..'', ''100APPLE'', ''101APPLE'', ''102APPLE'']),
        Listdir ''/DCIM/100APPLE''
         (Inr [''IMG_01.JPG'', ''IMG_02.MOV'', ''note.txt'', ''IMG_03.PNG'']),
        UpdateProgress 1 3 ''Scanning 100APPLE...'',
        Listdir ''/DCIM/101APPLE'' (Inr []),
        UpdateProgress 2 3 ''Scanning 101APPLE...'',
        Listdir ''/DCIM/102APPLE'' (Inr [''IMG_04.HEIC'']),
        UpdateProgress 3 3 ''Scanning 102APPLE...'',
        Stat ''/DCIM/100APPLE/IMG_01.JPG''
         (Inr \<lparr>st_mtime = Some 1704067200, st_size = Some 2048\<rparr>),
        UpdateProgress 1 4 ''Checking dates... Found 1 old photos'',
        Stat ''/DCIM/100APPLE/IMG_02.MOV''
         (Inr \<lparr>st_mtime = Some 1748736000, st_size = Some 4096\<rparr>),
        Stat ''/DCIM/100APPLE/IMG_03.PNG''
         (Inr \<lparr>st_mtime = Some 1748736000, st_size = Some 512\<rparr>),
        Stat ''/DCIM/102APPLE/IMG_04.HEIC''
         (Inr \<lparr>st_mtime = Some 1704153600, st_size = None\<rparr>),
        GetFileContents ''/DCIM/100APPLE/IMG_01.JPG'' (Inr ''image bytes''),
        UpdateProgress 1 2 ''Loading thumbnails...'',
        GetFileContents ''/DCIM/102APPLE/IMG_04.HEIC'' (Inr ''image bytes''),
        UpdateProgress 2 2 ''Loading thumbnails...'']\<rparr>,
    \<lparr>photos_data =
       [\<lparr>path = ''/DCIM/100APPLE/IMG_01.JPG'', filename = ''IMG_01.JPG'',
          date = \<lparr>dt_date = 19723, dt_time = 0\<rparr>, size_bytes = 2048\<rparr>,
        \<lparr>path = ''/DCIM/102APPLE/IMG_04.HEIC'', filename = ''IMG_04.HEIC'',
          date = \<lparr>dt_date = 19724, dt_time = 0\<rparr>, size_bytes = 0\<rparr>],
      thumbnails =
       [\<lparr>thumb_path = ''/DCIM/100APPLE/IMG_01.JPG'', thumb_filename = ''IMG_01.JPG'',
          selected = True\<rparr>,
        \<lparr>thumb_path = ''/DCIM/102APPLE/IMG_04.HEIC'', thumb_filename = ''IMG_04.HEIC'',
          selected = True\<rparr>]\<rparr>)"
  by code_simp

lemma example_folders_flaky:
  "scan_folders (example_afc True) [''100APPLE'', ''101APPLE'', ''102APPLE'']
     \<lparr>dev = [], trace = []\<rparr> =
   (\<lparr>dev = [],
      trace =
       [Listdir ''/DCIM/100APPLE''
         (Inr [''IMG_01.JPG'', ''IMG_02.MOV'', ''note.txt'', ''IMG_03.PNG'']),
        UpdateProgress 1 3 ''Scanning 100APPLE...'',
        Listdir ''/DCIM/101APPLE'' (Inl ''connection lost''),
        LogWarning ''Error scanning folder 101APPLE: connection lost'',
        Listdir ''/DCIM/102APPLE'' (Inr [''IMG_04.HEIC'']),
        UpdateProgress 3 3 ''Scanning 102APPLE...'']\<rparr>,
    [''/DCIM/100APPLE/IMG_01.JPG'', ''/DCIM/100APPLE/IMG_02.MOV'',
     ''/DCIM/100APPLE/IMG_03.PNG'', ''/DCIM/102APPLE/IMG_04.HEIC''],
    [''Folder 101APPLE: connection lost''])"
  by code_simp

lemma example_dates_healthy:
  "check_dates (example_afc False) example_fromtimestamp 20089
     [''/DCIM/100APPLE/IMG_01.JPG'', ''/DCIM/100APPLE/IMG_02.MOV'',
      ''/DCIM/100APPLE/IMG_03.PNG'', ''/DCIM/102APPLE/IMG_04.HEIC'']
     \<lparr>dev = [], trace = []\<rparr> =
   (\<lparr>dev = [],
      trace =
       [Stat ''/DCIM/100APPLE/IMG_01.JPG''
         (Inr \<lparr>st_mtime = Some 1704067200, st_size = Some 2048\<rparr>),
        UpdateProgress 1 4 ''Checking dates... Found 1 old photos'',
        Stat ''/DCIM/100APPLE/IMG_02.MOV''
         (Inr \<lparr>st_mtime = Some 1748736000, st_size = Some 4096\<rparr>),
        Stat ''/DCIM/100APPLE/IMG_03.PNG''
         (Inr \<lparr>st_mtime = Some 1748736000, st_size = Some 512\<rparr>),
        Stat ''/DCIM/102APPLE/IMG_04.HEIC''
         (Inr \<lparr>st_mtime = Some 1704153600, st_size = None\<rparr>)]\<rparr>,
    [\<lparr>path = ''/DCIM/100APPLE/IMG_01.JPG'', filename = ''IMG_01.JPG'',
       date = \<lparr>dt_date = 19723, dt_time = 0\<rparr>, size_bytes = 2048\<rparr>,
     \<lparr>path = ''/DCIM/102APPLE/IMG_04.HEIC'', filename = ''IMG_04.HEIC'',
       date = \<lparr>dt_date = 19724, dt_time = 0\<rparr>, size_bytes = 0\<rparr>],
    0)"
  by code_simp

subsection \<open>The claims about scanning\<close>

text \<open>
  C2. Every item of the list a scan stores has a modification date, time of day left
  aside, strictly before the cutoff; and that date is the one the device's stat answer
  for the item's path gave.
\<close>

theorem scan_only_before_cutoff:
  "scan_photos (Some afc) fts (Some c) d a = (w', a') \<Longrightarrow>
     \<forall>p \<in> set (photos_data a').
        dt_date (date p) < c \<and>
        (\<exists>st. (path p, Inr st) \<in> set (stat_calls (trace w')) \<and>
              read_mtime fts st = Inr (date p))"
proof -
  assume h: "scan_photos (Some afc) fts (Some c) d a = (w', a')"
  then show ?thesis
  proof (cases rule: scan_photos_trace)
    case (failed e)
    then show ?thesis by simp
  next
    case (scanned entries fs rs xs ss)
    show ?thesis
    proof
      fix p assume "p \<in> set (photos_data a')"
      with scanned(9) obtain x r where
        xr: "(x, r) \<in> set (zip xs ss)" and p: "p \<in> set (old_item fts c (x, r))"
        by auto
      from old_item_mem [OF p] obtain st where
        "r = Inr st" "read_mtime fts st = Inr (date p)" "dt_date (date p) < c" "path p = x"
        by blast
      with xr scanned(6) show "dt_date (date p) < c \<and>
        (\<exists>st. (path p, Inr st) \<in> set (stat_calls (trace w')) \<and>
              read_mtime fts st = Inr (date p))"
        by auto
    qed
  qed
qed

theorem scan_only_before_cutoff_witness:
  "map (\<lambda>p. (filename p, dt_date (date p)))
     (photos_data (snd (scan_photos (Some (example_afc True)) example_fromtimestamp
        (Some 20089) [] \<lparr>photos_data = [], thumbnails = []\<rparr>)))
   = [(''IMG_01.JPG'', 19723), (''IMG_04.HEIC'', 19724)]
   \<and> (19723 :: int) < 20089 \<and> (19724 :: int) < 20089"
proof -
  note h = example_scan_flaky
  from scan_only_before_cutoff [OF h] have
    "\<forall>p \<in> set (photos_data (snd (scan_photos (Some (example_afc True))
        example_fromtimestamp (Some 20089) [] \<lparr>photos_data = [], thumbnails = []\<rparr>))).
       dt_date (date p) < 20089"
    by (simp add: h)
  then show ?thesis by (simp add: h)
qed

text \<open>
  C5, as amended. The diagnostics of a scan are written to the log in full and nothing
  of them is cut or summarised: one warning for every folder whose listing failed,
  with the folder's name and the whole error text, in order; and, when at least one
  date check failed, one warning with the exact number of files whose date check
  failed.
\<close>

theorem scan_diagnostics_logged:
  "scan_photos (Some afc) fts (Some c) d a = (w', a') \<Longrightarrow>
     warnings (trace w') =
       map (\<lambda>(p, r). ''Error scanning folder '' @ drop 6 p @ '': '' @ projl r)
         (filter (isl \<circ> snd) (tl (listdir_calls (trace w')))) @
       (if 0 < length (filter (stat_failed fts \<circ> snd) (stat_calls (trace w')))
        then [''Could not check dates for ''
               @ str_nat (length (filter (stat_failed fts \<circ> snd) (stat_calls (trace w'))))
               @ '' files'']
        else [])"
proof -
  assume h: "scan_photos (Some afc) fts (Some c) d a = (w', a')"
  then show ?thesis
  proof (cases rule: scan_photos_trace)
    case (failed e)
    then show ?thesis by simp
  next
    case (scanned entries fs rs xs ss)
    have a: "map (\<lambda>(p, r). ''Error scanning folder '' @ drop 6 p @ '': '' @ projl r)
               (filter (isl \<circ> snd) (zip (map folder_path_of fs) rs))
             = map (\<lambda>(f, r). ''Error scanning folder '' @ f @ '': '' @ projl r)
               (filter (isl \<circ> snd) (zip fs rs))"
      using scanned(2) [symmetric]
    proof (induction fs rs rule: list_induct2)
      case Nil
      then show ?case by simp
    next
      case (Cons f fs r rs)
      then show ?case by (simp add: folder_path_of_def)
    qed
    have b: "length (filter (stat_failed fts \<circ> snd) (zip xs ss))
               = length (filter (stat_failed fts) ss)"
      using scanned(5) [symmetric]
    proof (induction xs ss rule: list_induct2)
      case Nil
      then show ?case by simp
    next
      case (Cons x xs s ss)
      then show ?case by simp
    qed
    show ?thesis
      unfolding scanned(7) scanned(3) scanned(6) list.sel a b by (rule refl)
  qed
qed

theorem scan_diagnostics_logged_witness:
  "warnings (trace (fst (scan_photos (Some (example_afc True)) example_fromtimestamp
      (Some 20089) [] \<lparr>photos_data = [], thumbnails = []\<rparr>)))
   = [''Error scanning folder 101APPLE: connection lost'',
      ''Could not check dates for 1 files'']"
proof -
  note h = example_scan_flaky
  have "str_nat 1 = ''1''" by code_simp
  with scan_diagnostics_logged [OF h] show ?thesis
    by (simp add: h stat_failed_def read_mtime_def example_fromtimestamp_def)
qed

text \<open>
  C5 as stated fails: what a scan hands over holds no diagnostics. A scan in which one
  folder listing and one stat fail, and a scan of a device on which nothing fails,
  store the same result, while their diagnostics differ.
\<close>

theorem scan_diagnostics_counterexample:
  "snd (scan_photos (Some (example_afc True)) example_fromtimestamp (Some 20089) []
          \<lparr>photos_data = [], thumbnails = []\<rparr>)
   = snd (scan_photos (Some (example_afc False)) example_fromtimestamp (Some 20089) []
          \<lparr>photos_data = [], thumbnails = []\<rparr>)
   \<and> warnings (trace (fst (scan_photos (Some (example_afc True)) example_fromtimestamp
          (Some 20089) [] \<lparr>photos_data = [], thumbnails = []\<rparr>)))
     = [''Error scanning folder 101APPLE: connection lost'',
        ''Could not check dates for 1 files'']
   \<and> warnings (trace (fst (scan_photos (Some (example_afc False)) example_fromtimestamp
          (Some 20089) [] \<lparr>photos_data = [], thumbnails = []\<rparr>)))
     = []"
  by (simp add: example_scan_flaky example_scan_healthy)

text \<open>
  C6. The three extension tests of the source agree with the classifier of the
  specification: the listing filter accepts exactly the supported kinds, the video test
  and the HEIC test pick out their kinds, and a supported file that is neither is an
  image. The kind does not depend on the case of the letters. In a scan, every path
  that is stat'ed and every item stored is of a supported kind, and the paths stat'ed
  are exactly the supported files of the folders listed, in the order listed: an
  unsupported file is never stat'ed, so it is in no result and in no count.
\<close>

theorem classify_agrees_and_scan_skips_unsupported:
  "is_media f = (classify_spec f \<noteq> Unsupported) \<and>
   is_video f = (classify_spec f = Video) \<and>
   is_heic f = (classify_spec f = HeicImage) \<and>
   (is_media f \<and> \<not> is_video f \<and> \<not> is_heic f) = (classify_spec f = Image) \<and>
   classify_spec (upper f) = classify_spec f \<and>
   classify_spec (lower f) = classify_spec f \<and>
   (scan_photos (Some afc) fts (Some c) d a = (w', a') \<longrightarrow>
      (\<forall>p \<in> set (photos_data a'). classify_spec (filename p) \<noteq> Unsupported) \<and>
      (\<forall>q \<in> set (stat_calls (trace w')). classify_spec (basename (fst q)) \<noteq> Unsupported) \<and>
      map fst (stat_calls (trace w')) =
        concat (map folder_media (tl (listdir_calls (trace w')))))"
proof -
  have scan: "(\<forall>p \<in> set (photos_data a'). classify_spec (filename p) \<noteq> Unsupported) \<and>
      (\<forall>q \<in> set (stat_calls (trace w')). classify_spec (basename (fst q)) \<noteq> Unsupported) \<and>
      map fst (stat_calls (trace w')) =
        concat (map folder_media (tl (listdir_calls (trace w'))))"
    if h: "scan_photos (Some afc) fts (Some c) d a = (w', a')"
    using h
  proof (cases rule: scan_photos_trace)
    case (failed e)
    then show ?thesis by simp
  next
    case (scanned entries fs rs xs ss)
    have xs_media: "is_media (basename x)" if "x \<in> set xs" for x
    proof -
      from that scanned(4) obtain q where "x \<in> set (folder_media q)"
        by auto
      then have "is_media x" by (cases q) (simp add: folder_media_is_media)
      then show ?thesis by (rule is_media_basename)
    qed
    have items: "\<forall>p \<in> set (photos_data a'). classify_spec (filename p) \<noteq> Unsupported"
    proof
      fix p assume "p \<in> set (photos_data a')"
      with scanned(9) obtain x r where
        xr: "(x, r) \<in> set (zip xs ss)" and p: "p \<in> set (old_item fts c (x, r))"
        by auto
      from old_item_mem [OF p] have "filename p = basename x" by blast
      moreover from xr have "x \<in> set xs" by (rule set_zip_leftD)
      ultimately show "classify_spec (filename p) \<noteq> Unsupported"
        using xs_media media_kinds(1) by simp
    qed
    have stats: "\<forall>q \<in> set (stat_calls (trace w')). classify_spec (basename (fst q)) \<noteq> Unsupported"
    proof
      fix q assume "q \<in> set (stat_calls (trace w'))"
      with scanned(6) have "fst q \<in> set xs"
        by (cases q) (auto dest: set_zip_leftD)
      then show "classify_spec (basename (fst q)) \<noteq> Unsupported"
        using xs_media media_kinds(1) by simp
    qed
    have paths: "map fst (stat_calls (trace w')) =
        concat (map folder_media (tl (listdir_calls (trace w'))))"
      using scanned(3,4,5,6) by simp
    from items stats paths show ?thesis by blast
  qed
  have up: "classify_spec (upper f) = classify_spec f"
    by (simp add: classify_spec_def lower_upper)
  have low: "classify_spec (lower f) = classify_spec f"
    by (simp add: classify_spec_def lower_lower)
  from media_kinds [of f] up low scan show ?thesis by blast
qed

theorem classify_agrees_and_scan_skips_unsupported_witness:
  "classify_spec ''clip.M4V'' = Video \<and> is_video ''clip.M4V'' \<and> is_media ''clip.M4V'' \<and>
   classify_spec ''photo.HEIC'' = HeicImage \<and> is_heic ''photo.HEIC'' \<and>
   classify_spec ''note.txt'' = Unsupported \<and> \<not> is_media ''note.txt'' \<and>
   map fst (stat_calls (trace (fst (scan_photos (Some (example_afc True))
      example_fromtimestamp (Some 20089) [] \<lparr>photos_data = [], thumbnails = []\<rparr>))))
   = [''/DCIM/100APPLE/IMG_01.JPG'', ''/DCIM/100APPLE/IMG_02.MOV'',
      ''/DCIM/100APPLE/IMG_03.PNG'', ''/DCIM/102APPLE/IMG_04.HEIC'']"
proof -
  note h = example_scan_flaky
  have v: "classify_spec ''clip.M4V'' = Video" by code_simp
  have e: "classify_spec ''photo.HEIC'' = HeicImage" by code_simp
  have u: "classify_spec ''note.txt'' = Unsupported" by code_simp
  from classify_agrees_and_scan_skips_unsupported
         [of "''clip.M4V''" "example_afc True" example_fromtimestamp 20089 "[]"
             "\<lparr>photos_data = [], thumbnails = []\<rparr>"] v
  have a: "is_video ''clip.M4V''" "is_media ''clip.M4V''"
    by simp_all
  from classify_agrees_and_scan_skips_unsupported
         [of "''photo.HEIC''" "example_afc True" example_fromtimestamp 20089 "[]"
             "\<lparr>photos_data = [], thumbnails = []\<rparr>"] e
  have b: "is_heic ''photo.HEIC''"
    by simp
  from classify_agrees_and_scan_skips_unsupported
         [of "''note.txt''" "example_afc True" example_fromtimestamp 20089 "[]"
             "\<lparr>photos_data = [], thumbnails = []\<rparr>"] u
  have c: "\<not> is_media ''note.txt''"
    by simp
  from v e u a b c show ?thesis by (simp add: h)
qed

text \<open>
  C7, as amended. A failed listing of a subfolder never ends the scan: every subfolder
  is listed once, in order, whatever the earlier listings answered; a failure is
  recorded in \<^verbatim>\<open>scan_errors\<close> with the folder's name and the error text, and adds
  no file. A progress update \<open>(i + 1, total, folder)\<close> is sent for each subfolder
  whose listing succeeded, and none for a subfolder whose listing failed.
\<close>

theorem scan_folders_progress:
  "scan_folders afc fs w = (w', all_photos, scan_errors) \<Longrightarrow>
     \<exists>rs. length rs = length fs \<and>
       listdir_calls (trace w') = listdir_calls (trace w) @ zip (map folder_path_of fs) rs \<and>
       scan_errors = map (\<lambda>(f, r). ''Folder '' @ f @ '': '' @ projl r)
           (filter (isl \<circ> snd) (zip fs rs)) \<and>
       all_photos = concat (map folder_media (zip (map folder_path_of fs) rs)) \<and>
       progress_updates (trace w') = progress_updates (trace w) @
         map (\<lambda>(k, f, r). (k + 1, length fs, ''Scanning '' @ f @ ''...''))
           (filter (\<lambda>(k, f, r). \<not> isl r) (enumerate 0 (zip fs rs)))"
proof -
  assume "scan_folders afc fs w = (w', all_photos, scan_errors)"
  from scan_folders_trace [OF this] show ?thesis by blast
qed

theorem scan_folders_progress_witness:
  "\<exists>rs. length rs = length [''100APPLE'', ''101APPLE'', ''102APPLE''] \<and>
     listdir_calls (trace \<lparr>dev = [] :: string list,
       trace =
       [Listdir ''/DCIM/100APPLE''
         (Inr [''IMG_01.JPG'', ''IMG_02.MOV'', ''note.txt'', ''IMG_03.PNG'']),
        UpdateProgress 1 3 ''Scanning 100APPLE...'',
        Listdir ''/DCIM/101APPLE'' (Inl ''connection lost''),
        LogWarning ''Error scanning folder 101APPLE: connection lost'',
        Listdir ''/DCIM/102APPLE'' (Inr [''IMG_04.HEIC'']),
        UpdateProgress 3 3 ''Scanning 102APPLE...'']\<rparr>)
     = listdir_calls (trace \<lparr>dev = [] :: string list, trace = []\<rparr>)
       @ zip (map folder_path_of [''100APPLE'', ''101APPLE'', ''102APPLE'']) rs \<and>
     [''Folder 101APPLE: connection lost'']
       = map (\<lambda>(f, r). ''Folder '' @ f @ '': '' @ projl r)
           (filter (isl \<circ> snd) (zip [''100APPLE'', ''101APPLE'', ''102APPLE''] rs)) \<and>
     [''/DCIM/100APPLE/IMG_01.JPG'', ''/DCIM/100APPLE/IMG_02.MOV'',
      ''/DCIM/100APPLE/IMG_03.PNG'', ''/DCIM/102APPLE/IMG_04.HEIC'']
       = concat (map folder_media
           (zip (map folder_path_of [''100APPLE'', ''101APPLE'', ''102APPLE'']) rs)) \<and>
     progress_updates (trace \<lparr>dev = [] :: string list,
       trace =
       [Listdir ''/DCIM/100APPLE''
         (Inr [''IMG_01.JPG'', ''IMG_02.MOV'', ''note.txt'', ''IMG_03.PNG'']),
        UpdateProgress 1 3 ''Scanning 100APPLE...'',
        Listdir ''/DCIM/101APPLE'' (Inl ''connection lost''),
        LogWarning ''Error scanning folder 101APPLE: connection lost'',
        Listdir ''/DCIM/102APPLE'' (Inr [''IMG_04.HEIC'']),
        UpdateProgress 3 3 ''Scanning 102APPLE...'']\<rparr>)
     = progress_updates (trace \<lparr>dev = [] :: string list, trace = []\<rparr>) @
         map (\<lambda>(k, f, r). (k + 1, length [''100APPLE'', ''101APPLE'', ''102APPLE''],
                ''Scanning '' @ f @ ''...''))
           (filter (\<lambda>(k, f, r). \<not> isl r)
              (enumerate 0 (zip [''100APPLE'', ''101APPLE'', ''102APPLE''] rs)))"
  by (rule scan_folders_progress [OF example_folders_flaky])

text \<open>
  C7 as stated fails: the listing of 101APPLE fails, and the three subfolders get two
  progress updates, none of them for 101APPLE.
\<close>

theorem scan_folders_progress_counterexample:
  "progress_updates (trace (fst (scan_folders (example_afc True)
      [''100APPLE'', ''101APPLE'', ''102APPLE''] \<lparr>dev = [], trace = []\<rparr>)))
   = [(1, 3, ''Scanning 100APPLE...''), (3, 3, ''Scanning 102APPLE...'')]
   \<and> fst (listdir (example_afc True) [] ''/DCIM/101APPLE'') = Inl ''connection lost''"
proof
  show "progress_updates (trace (fst (scan_folders (example_afc True)
      [''100APPLE'', ''101APPLE'', ''102APPLE''] \<lparr>dev = [], trace = []\<rparr>)))
   = [(1, 3, ''Scanning 100APPLE...''), (3, 3, ''Scanning 102APPLE...'')]"
    by (simp add: example_folders_flaky)
  show "fst (listdir (example_afc True) [] ''/DCIM/101APPLE'') = Inl ''connection lost''"
    by (simp add: example_afc_def example_listdir_def)
qed

lemma length_old_items:
  "length xs = length rs \<Longrightarrow>
     length (concat (map (old_item fts c) (zip xs rs))) = length (filter (is_old fts c) rs)"
  by (induction xs rs rule: list_induct2) (simp_all add: length_old_item)

text \<open>
  C8, as amended. In the date check every path of \<^verbatim>\<open>all_photos\<close> is stat'ed once,
  in order. A progress update \<open>(i + 1, total, text)\<close> is sent for exactly the files
  whose index \<open>i\<close>, counted from 0, is a multiple of 10 and whose date check did not
  fail; its text gives the number of old photos found among the first \<open>i + 1\<close>
  files. Nothing more is sent for the final file.
\<close>

theorem check_dates_progress:
  "check_dates afc fts c xs w = (w', old_photos, k) \<Longrightarrow>
     \<exists>rs. length rs = length xs \<and>
       stat_calls (trace w') = stat_calls (trace w) @ zip xs rs \<and>
       k = length (filter (stat_failed fts) rs) \<and>
       length old_photos = length (filter (is_old fts c) rs) \<and>
       progress_updates (trace w') = progress_updates (trace w) @
         map (\<lambda>(j, r). (j + 1, length xs,
                ''Checking dates... Found ''
                  @ str_nat (length (filter (is_old fts c) (take (j + 1) rs)))
                  @ '' old photos''))
           (filter (\<lambda>(j, r). j mod 10 = 0 \<and> \<not> stat_failed fts r) (enumerate 0 rs))"
proof -
  assume "check_dates afc fts c xs w = (w', old_photos, k)"
  from check_dates_trace [OF this] obtain rs where
    rs: "length rs = length xs"
       "stat_calls (trace w') = stat_calls (trace w) @ zip xs rs"
       "old_photos = concat (map (old_item fts c) (zip xs rs))"
       "k = length (filter (stat_failed fts) rs)"
       "progress_updates (trace w') = progress_updates (trace w) @
         map (\<lambda>(j, r). (j + 1, length xs,
                found_text (length (filter (is_old fts c) (take (j + 1) rs)))))
           (filter (\<lambda>(j, r). j mod 10 = 0 \<and> \<not> stat_failed fts r) (enumerate 0 rs))"
    by blast
  from rs(1,3) have "length old_photos = length (filter (is_old fts c) rs)"
    by (simp add: length_old_items)
  with rs(1,2,4) rs(5) [unfolded found_text_def] show ?thesis
    by blast
qed

theorem check_dates_progress_witness:
  "(\<exists>rs. length rs = length [''/DCIM/100APPLE/IMG_01.JPG'', ''/DCIM/100APPLE/IMG_02.MOV'',
                             ''/DCIM/100APPLE/IMG_03.PNG'', ''/DCIM/102APPLE/IMG_04.HEIC''] \<and>
       stat_calls (trace (fst (check_dates (example_afc False) example_fromtimestamp 20089
          [''/DCIM/100APPLE/IMG_01.JPG'', ''/DCIM/100APPLE/IMG_02.MOV'',
           ''/DCIM/100APPLE/IMG_03.PNG'', ''/DCIM/102APPLE/IMG_04.HEIC'']
          \<lparr>dev = [], trace = []\<rparr>)))
       = stat_calls (trace \<lparr>dev = [] :: string list, trace = []\<rparr>) @
         zip [''/DCIM/100APPLE/IMG_01.JPG'', ''/DCIM/100APPLE/IMG_02.MOV'',
              ''/DCIM/100APPLE/IMG_03.PNG'', ''/DCIM/102APPLE/IMG_04.HEIC''] rs \<and>
       snd (snd (check_dates (example_afc False) example_fromtimestamp 20089
          [''/DCIM/100APPLE/IMG_01.JPG'', ''/DCIM/100APPLE/IMG_02.MOV'',
           ''/DCIM/100APPLE/IMG_03.PNG'', ''/DCIM/102APPLE/IMG_04.HEIC'']
          \<lparr>dev = [], trace = []\<rparr>))
       = length (filter (stat_failed example_fromtimestamp) rs) \<and>
       length (fst (snd (check_dates (example_afc False) example_fromtimestamp 20089
          [''/DCIM/100APPLE/IMG_01.JPG'', ''/DCIM/100APPLE/IMG_02.MOV'',
           ''/DCIM/100APPLE/IMG_03.PNG'', ''/DCIM/102APPLE/IMG_04.HEIC'']
          \<lparr>dev = [], trace = []\<rparr>)))
       = length (filter (is_old example_fromtimestamp 20089) rs) \<and>
       progress_updates (trace (fst (check_dates (example_afc False) example_fromtimestamp 20089
          [''/DCIM/100APPLE/IMG_01.JPG'', ''/DCIM/100APPLE/IMG_02.MOV'',
           ''/DCIM/100APPLE/IMG_03.PNG'', ''/DCIM/102APPLE/IMG_04.HEIC'']
          \<lparr>dev = [], trace = []\<rparr>)))
       = progress_updates (trace \<lparr>dev = [] :: string list, trace = []\<rparr>) @
         map (\<lambda>(j, r). (j + 1,
                length [''/DCIM/100APPLE/IMG_01.JPG'', ''/DCIM/100APPLE/IMG_02.MOV'',
                        ''/DCIM/100APPLE/IMG_03.PNG'', ''/DCIM/102APPLE/IMG_04.HEIC''],
                ''Checking dates... Found ''
                  @ str_nat (length (filter (is_old example_fromtimestamp 20089)
                                       (take (j + 1) rs)))
                  @ '' old photos''))
           (filter (\<lambda>(j, r). j mod 10 = 0 \<and> \<not> stat_failed example_fromtimestamp r)
              (enumerate 0 rs)))
   \<and> progress_updates (trace (fst (check_dates (example_afc False) example_fromtimestamp 20089
          [''/DCIM/100APPLE/IMG_01.JPG'', ''/DCIM/100APPLE/IMG_02.MOV'',
           ''/DCIM/100APPLE/IMG_03.PNG'', ''/DCIM/102APPLE/IMG_04.HEIC'']
          \<lparr>dev = [], trace = []\<rparr>)))
     = [(1, 4, ''Checking dates... Found 1 old photos'')]"
proof
  have p: "check_dates (example_afc False) example_fromtimestamp 20089
          [''/DCIM/100APPLE/IMG_01.JPG'', ''/DCIM/100APPLE/IMG_02.MOV'',
           ''/DCIM/100APPLE/IMG_03.PNG'', ''/DCIM/102APPLE/IMG_04.HEIC'']
          \<lparr>dev = [], trace = []\<rparr>
     = (fst (check_dates (example_afc False) example_fromtimestamp 20089
          [''/DCIM/100APPLE/IMG_01.JPG'', ''/DCIM/100APPLE/IMG_02.MOV'',
           ''/DCIM/100APPLE/IMG_03.PNG'', ''/DCIM/102APPLE/IMG_04.HEIC'']
          \<lparr>dev = [], trace = []\<rparr>),
        fst (snd (check_dates (example_afc False) example_fromtimestamp 20089
          [''/DCIM/100APPLE/IMG_01.JPG'', ''/DCIM/100APPLE/IMG_02.MOV'',
           ''/DCIM/100APPLE/IMG_03.PNG'', ''/DCIM/102APPLE/IMG_04.HEIC'']
          \<lparr>dev = [], trace = []\<rparr>)),
        snd (snd (check_dates (example_afc False) example_fromtimestamp 20089
          [''/DCIM/100APPLE/IMG_01.JPG'', ''/DCIM/100APPLE/IMG_02.MOV'',
           ''/DCIM/100APPLE/IMG_03.PNG'', ''/DCIM/102APPLE/IMG_04.HEIC'']
          \<lparr>dev = [], trace = []\<rparr>)))"
    by simp
  show "\<exists>rs. length rs = length [''/DCIM/100APPLE/IMG_01.JPG'', ''/DCIM/100APPLE/IMG_02.MOV'',
                             ''/DCIM/100APPLE/IMG_03.PNG'', ''/DCIM/102APPLE/IMG_04.HEIC''] \<and>
       stat_calls (trace (fst (check_dates (example_afc False) example_fromtimestamp 20089
          [''/DCIM/100APPLE/IMG_01.JPG'', ''/DCIM/100APPLE/IMG_02.MOV'',
           ''/DCIM/100APPLE/IMG_03.PNG'', ''/DCIM/102APPLE/IMG_04.HEIC'']
          \<lparr>dev = [], trace = []\<rparr>)))
       = stat_calls (trace \<lparr>dev = [] :: string list, trace = []\<rparr>) @
         zip [''/DCIM/100APPLE/IMG_01.JPG'', ''/DCIM/100APPLE/IMG_02.MOV'',
              ''/DCIM/100APPLE/IMG_03.PNG'', ''/DCIM/102APPLE/IMG_04.HEIC''] rs \<and>
       snd (snd (check_dates (example_afc False) example_fromtimestamp 20089
          [''/DCIM/100APPLE/IMG_01.JPG'', ''/DCIM/100APPLE/IMG_02.MOV'',
           ''/DCIM/100APPLE/IMG_03.PNG'', ''/DCIM/102APPLE/IMG_04.HEIC'']
          \<lparr>dev = [], trace = []\<rparr>))
       = length (filter (stat_failed example_fromtimestamp) rs) \<and>
       length (fst (snd (check_dates (example_afc False) example_fromtimestamp 20089
          [''/DCIM/100APPLE/IMG_01.JPG'', ''/DCIM/100APPLE/IMG_02.MOV'',
           ''/DCIM/100APPLE/IMG_03.PNG'', ''/DCIM/102APPLE/IMG_04.HEIC'']
          \<lparr>dev = [], trace = []\<rparr>)))
       = length (filter (is_old example_fromtimestamp 20089) rs) \<and>
       progress_updates (trace (fst (check_dates (example_afc False) example_fromtimestamp 20089
          [''/DCIM/100APPLE/IMG_01.JPG'', ''/DCIM/100APPLE/IMG_02.MOV'',
           ''/DCIM/100APPLE/IMG_03.PNG'', ''/DCIM/102APPLE/IMG_04.HEIC'']
          \<lparr>dev = [], trace = []\<rparr>)))
       = progress_updates (trace \<lparr>dev = [] :: string list, trace = []\<rparr>) @
         map (\<lambda>(j, r). (j + 1,
                length [''/DCIM/100APPLE/IMG_01.JPG'', ''/DCIM/100APPLE/IMG_02.MOV'',
                        ''/DCIM/100APPLE/IMG_03.PNG'', ''/DCIM/102APPLE/IMG_04.HEIC''],
                ''Checking dates... Found ''
                  @ str_nat (length (filter (is_old example_fromtimestamp 20089)
                                       (take (j + 1) rs)))
                  @ '' old photos''))
           (filter (\<lambda>(j, r). j mod 10 = 0 \<and> \<not> stat_failed example_fromtimestamp r)
              (enumerate 0 rs))"
    by (rule check_dates_progress [OF p])
  show "progress_updates (trace (fst (check_dates (example_afc False) example_fromtimestamp 20089
          [''/DCIM/100APPLE/IMG_01.JPG'', ''/DCIM/100APPLE/IMG_02.MOV'',
           ''/DCIM/100APPLE/IMG_03.PNG'', ''/DCIM/102APPLE/IMG_04.HEIC'']
          \<lparr>dev = [], trace = []\<rparr>)))
     = [(1, 4, ''Checking dates... Found 1 old photos'')]"
    by (simp add: example_dates_healthy)
qed

text \<open>
  C8 as stated fails: four files are checked, every stat succeeds, and the only
  progress update is the one for the first file; the final file gets none, and the
  two old photos found by then are never reported.
\<close>

theorem check_dates_progress_counterexample:
  "progress_updates (trace (fst (check_dates (example_afc False) example_fromtimestamp 20089
      [''/DCIM/100APPLE/IMG_01.JPG'', ''/DCIM/100APPLE/IMG_02.MOV'',
       ''/DCIM/100APPLE/IMG_03.PNG'', ''/DCIM/102APPLE/IMG_04.HEIC'']
      \<lparr>dev = [], trace = []\<rparr>)))
   = [(1, 4, ''Checking dates... Found 1 old photos'')]
   \<and> length (fst (snd (check_dates (example_afc False) example_fromtimestamp 20089
      [''/DCIM/100APPLE/IMG_01.JPG'', ''/DCIM/100APPLE/IMG_02.MOV'',
       ''/DCIM/100APPLE/IMG_03.PNG'', ''/DCIM/102APPLE/IMG_04.HEIC'']
      \<lparr>dev = [], trace = []\<rparr>))) = 2"
  by (simp add: example_dates_healthy)

lemma increasing_currents:
  assumes "\<And>x. fst (h x) = Suc (fst x)"
  shows "sorted_wrt (<) (map fst (map h (filter P (enumerate n zs))))"
proof -
  have "map fst (map h (filter P (enumerate n zs)))
          = map (\<lambda>x. Suc (fst x)) (filter P (enumerate n zs))"
    by (simp add: assms)
  then show ?thesis by (simp only: increasing_filter_enumerate)
qed

text \<open>
  C9, as amended. A scan sends its progress updates in three runs, one per loop: the
  folder listing, the date check and the thumbnail loading. Within each run the
  \<^verbatim>\<open>current\<close> field is strictly increasing, so no update is out of order or repeated
  there; each run starts counting again, so across runs the field may repeat or
  drop. Within one deletion the field runs through 1, 2, ..., the number of items.
\<close>

theorem progress_increasing_within_runs:
  "(scan_photos (Some afc) fts (Some c) d a = (w', a') \<longrightarrow>
      (\<exists>A B C. progress_updates (trace w') = A @ B @ C \<and>
         (\<forall>u \<in> set A. \<exists>f. snd (snd u) = ''Scanning '' @ f @ ''...'') \<and>
         (\<forall>u \<in> set B. \<exists>n. snd (snd u) =
              ''Checking dates... Found '' @ str_nat n @ '' old photos'') \<and>
         (\<forall>u \<in> set C. snd (snd u) = ''Loading thumbnails...'') \<and>
         sorted_wrt (<) (map fst A) \<and> sorted_wrt (<) (map fst B) \<and>
         sorted_wrt (<) (map fst C))) \<and>
   (delete_thread afc0 dry_run \<lparr>dev = d0, trace = []\<rparr> a0 = (w0, r0, b0) \<longrightarrow>
      map fst (progress_updates (trace w0)) = [1 ..< Suc (length (photos_data a0))])"
proof (intro conjI impI)
  assume "scan_photos (Some afc) fts (Some c) d a = (w', a')"
  then show "\<exists>A B C. progress_updates (trace w') = A @ B @ C \<and>
         (\<forall>u \<in> set A. \<exists>f. snd (snd u) = ''Scanning '' @ f @ ''...'') \<and>
         (\<forall>u \<in> set B. \<exists>n. snd (snd u) =
              ''Checking dates... Found '' @ str_nat n @ '' old photos'') \<and>
         (\<forall>u \<in> set C. snd (snd u) = ''Loading thumbnails...'') \<and>
         sorted_wrt (<) (map fst A) \<and> sorted_wrt (<) (map fst B) \<and>
         sorted_wrt (<) (map fst C)"
  proof (cases rule: scan_photos_trace)
    case (failed e)
    show ?thesis
      by (rule exI [of _ "[]"], rule exI [of _ "[]"], rule exI [of _ "[]"])
         (simp add: failed(4))
  next
    case (scanned entries fs rs xs ss)
    define A where "A = map (\<lambda>(k, f, r). (k + 1, length fs, ''Scanning '' @ f @ ''...''))
           (filter (\<lambda>(k, f, r). \<not> isl r) (enumerate 0 (zip fs rs)))"
    define B where "B = map (\<lambda>(j, r). (j + 1, length xs,
                found_text (length (filter (is_old fts c) (take (j + 1) ss)))))
           (filter (\<lambda>(j, r). j mod 10 = 0 \<and> \<not> stat_failed fts r) (enumerate 0 ss))"
    define C where "C = map (\<lambda>(j, p). (j + 1, min (length (photos_data a')) max_thumbnails,
                ''Loading thumbnails...''))
           (enumerate 0 (take max_thumbnails (photos_data a')))"
    have abc: "progress_updates (trace w') = A @ B @ C"
      unfolding A_def B_def C_def by (rule scanned(8))
    have ta: "\<forall>u \<in> set A. \<exists>f. snd (snd u) = ''Scanning '' @ f @ ''...''"
      unfolding A_def by auto
    have tb: "\<forall>u \<in> set B. \<exists>n. snd (snd u) =
              ''Checking dates... Found '' @ str_nat n @ '' old photos''"
      unfolding B_def found_text_def by auto
    have tc: "\<forall>u \<in> set C. snd (snd u) = ''Loading thumbnails...''"
      unfolding C_def by auto
    have sa: "sorted_wrt (<) (map fst A)"
      unfolding A_def by (rule increasing_currents) (simp add: case_prod_beta)
    have sb: "sorted_wrt (<) (map fst B)"
      unfolding B_def by (rule increasing_currents) (simp add: case_prod_beta)
    have sc: "sorted_wrt (<) (map fst C)"
    proof -
      have "sorted_wrt (<) (map fst (map (\<lambda>(j, p). (j + 1,
                min (length (photos_data a')) max_thumbnails, ''Loading thumbnails...''))
              (filter (\<lambda>x. True) (enumerate 0 (take max_thumbnails (photos_data a'))))))"
        by (rule increasing_currents) (simp add: case_prod_beta)
      then show ?thesis unfolding C_def by simp
    qed
    from abc ta tb tc sa sb sc show ?thesis by blast
  qed
next
  assume h: "delete_thread afc0 dry_run \<lparr>dev = d0, trace = []\<rparr> a0 = (w0, r0, b0)"
  obtain w1 d1 e1 ef1 where
    l: "for_enumerate (delete_photo afc0 dry_run (length (photos_data a0))) 0 (photos_data a0)
          (\<lparr>dev = d0, trace = []\<rparr>, 0, 0, []) = (w1, d1, e1, ef1)"
    by (metis prod_cases4)
  from h l have eq: "w0 = w1"
    by (auto simp: delete_thread_def)
  from delete_loop_tally [OF l] have
    "progress_updates (trace w1) =
       map (\<lambda>(k, p). (k + 1, length (photos_data a0),
              (if dry_run then ''Simulating'' else ''Deleting'') @ '': '' @ filename p))
         (enumerate 0 (photos_data a0))"
    by simp
  then have "map fst (progress_updates (trace w1))
               = map Suc (map fst (enumerate 0 (photos_data a0)))"
    by (simp only: map_map comp_def case_prod_unfold fst_conv Suc_eq_plus1)
  also have "\<dots> = [1 ..< Suc (length (photos_data a0))]"
    by (simp add: map_fst_enumerate map_Suc_upt)
  finally show "map fst (progress_updates (trace w0)) = [1 ..< Suc (length (photos_data a0))]"
    using eq by simp
qed

theorem progress_increasing_within_runs_witness:
  "progress_updates (trace (fst (scan_photos (Some (example_afc True)) example_fromtimestamp
      (Some 20089) [] \<lparr>photos_data = [], thumbnails = []\<rparr>)))
   = [(1, 3, ''Scanning 100APPLE...''), (3, 3, ''Scanning 102APPLE...'')]
     @ [(1, 4, ''Checking dates... Found 1 old photos'')]
     @ [(1, 2, ''Loading thumbnails...''), (2, 2, ''Loading thumbnails...'')]
   \<and> map fst (progress_updates (trace (fst (delete_thread (example_afc True) True
        \<lparr>dev = [], trace = []\<rparr> \<lparr>photos_data = two_photos, thumbnails = []\<rparr>))))
     = [1, 2]"
proof
  from progress_increasing_within_runs
         [THEN conjunct1, rule_format, OF example_scan_flaky]
  obtain A B C where
    "progress_updates (trace (fst (scan_photos (Some (example_afc True)) example_fromtimestamp
       (Some 20089) [] \<lparr>photos_data = [], thumbnails = []\<rparr>))) = A @ B @ C"
    by (auto simp: example_scan_flaky)
  then show "progress_updates (trace (fst (scan_photos (Some (example_afc True))
      example_fromtimestamp (Some 20089) [] \<lparr>photos_data = [], thumbnails = []\<rparr>)))
   = [(1, 3, ''Scanning 100APPLE...''), (3, 3, ''Scanning 102APPLE...'')]
     @ [(1, 4, ''Checking dates... Found 1 old photos'')]
     @ [(1, 2, ''Loading thumbnails...''), (2, 2, ''Loading thumbnails...'')]"
    by (simp add: example_scan_flaky)
next
  have p: "delete_thread (example_afc True) True \<lparr>dev = [], trace = []\<rparr>
             \<lparr>photos_data = two_photos, thumbnails = []\<rparr>
     = (fst (delete_thread (example_afc True) True \<lparr>dev = [], trace = []\<rparr>
             \<lparr>photos_data = two_photos, thumbnails = []\<rparr>),
        fst (snd (delete_thread (example_afc True) True \<lparr>dev = [], trace = []\<rparr>
             \<lparr>photos_data = two_photos, thumbnails = []\<rparr>)),
        snd (snd (delete_thread (example_afc True) True \<lparr>dev = [], trace = []\<rparr>
             \<lparr>photos_data = two_photos, thumbnails = []\<rparr>)))"
    by simp
  from progress_increasing_within_runs [THEN conjunct2, rule_format, OF p]
  show "map fst (progress_updates (trace (fst (delete_thread (example_afc True) True
        \<lparr>dev = [], trace = []\<rparr> \<lparr>photos_data = two_photos, thumbnails = []\<rparr>))))
     = [1, 2]"
    by (simp add: two_photos_def)
qed

text \<open>
  C9 as stated fails: in one scan the \<^verbatim>\<open>current\<close> fields are 1, 3, 1, 1, 2. After
  the folder run ends at 3 the date check starts again at 1, and the thumbnail run
  starts at 1 once more: the sequence is not even weakly increasing.
\<close>

theorem progress_increasing_counterexample:
  "map fst (progress_updates (trace (fst (scan_photos (Some (example_afc True))
      example_fromtimestamp (Some 20089) [] \<lparr>photos_data = [], thumbnails = []\<rparr>))))
   = [1, 3, 1, 1, 2]
   \<and> \<not> sorted_wrt (\<le>) [1, 3, 1, 1, 2 :: nat]"
  by (simp add: example_scan_flaky)

end
